theory Spec2Isabelle
  imports Main
begin

section \<open>JavaScript values and objects\<close>

text \<open>
  The values that reach the CSV utility and the filter form: the primitive values of a
  report record or of a filter field, and Date objects. Numbers are the integers, which
  \<open>String\<close> prints in plain decimal. A Date object is represented by what the two
  conversions the code can apply to it return: the text of \<open>toISOString()\<close> and the text
  of \<open>String(value)\<close>. Any other object or function, such as the members every object
  inherits, is represented by the text \<open>String(value)\<close> gives. A Date with an invalid
  time value, on which \<open>toISOString()\<close> raises, is not among these values; it is a value
  of the type \<open>rawval\<close> below.
\<close>

datatype jsval =
    JUndefined
  | JNull
  | JBool bool
  | JNum int
  | JStr string
  | JDate (isoText: string) (dateText: string)
  | JObject (objectText: string)

abbreviation dquote :: char where "dquote \<equiv> CHR 0x22"
abbreviation newline :: char where "newline \<equiv> CHR 0x0A"
abbreviation comma :: char where "comma \<equiv> CHR 0x2C"

fun digitChar :: "nat \<Rightarrow> char" where
  "digitChar n = char_of (48 + n)"

fun natToString :: "nat \<Rightarrow> string" where
  "natToString n = (if n < 10 then [digitChar n] else natToString (n div 10) @ [digitChar (n mod 10)])"

declare natToString.simps [simp del]

text \<open>\<open>String(value)\<close>.\<close>

fun toStringJS :: "jsval \<Rightarrow> string" where
  "toStringJS JUndefined = ''undefined''"
| "toStringJS JNull = ''null''"
| "toStringJS (JBool b) = (if b then ''true'' else ''false'')"
| "toStringJS (JNum n) = (if n < 0 then CHR ''-'' # natToString (nat (- n)) else natToString (nat n))"
| "toStringJS (JStr s) = s"
| "toStringJS (JDate dIso dTxt) = dTxt"
| "toStringJS (JObject oTxt) = oTxt"

text \<open>Truthiness, as \<open>||\<close>, \<open>!\<close> and the conditional operator test it.\<close>

fun truthy :: "jsval \<Rightarrow> bool" where
  "truthy JUndefined = False"
| "truthy JNull = False"
| "truthy (JBool b) = b"
| "truthy (JNum n) = (n \<noteq> 0)"
| "truthy (JStr s) = (s \<noteq> [])"
| "truthy (JDate dIso dTxt) = True"
| "truthy (JObject oTxt) = True"

text \<open>\<open>a || b\<close> and \<open>a ?? b\<close>.\<close>

definition jsOr :: "jsval \<Rightarrow> jsval \<Rightarrow> jsval" where
  "jsOr a b = (if truthy a then a else b)"

definition nullish :: "jsval \<Rightarrow> bool" where
  "nullish v = (v = JUndefined \<or> v = JNull)"

definition jsCoalesce :: "jsval \<Rightarrow> jsval \<Rightarrow> jsval" where
  "jsCoalesce a b = (if nullish a then b else a)"

text \<open>
  A plain object is the list of its own properties in the order \<open>Object.keys\<close>
  enumerates them (insertion order, for keys that are not array indices). Reading a
  property \<open>ob[k]\<close> gives the own property if there is one, else what the object inherits
  from \<open>Object.prototype\<close> under that name, else \<open>undefined\<close>. Writing a property that
  is there keeps its place, writing a new one appends it.
\<close>

type_synonym obj = "(string \<times> jsval) list"

definition prototypeMethods :: "string list" where
  "prototypeMethods =
     [''__defineGetter__'', ''__defineSetter__'', ''hasOwnProperty'', ''__lookupGetter__'',
      ''__lookupSetter__'', ''isPrototypeOf'', ''propertyIsEnumerable'', ''toString'',
      ''valueOf'', ''toLocaleString'']"

text \<open>
  The members of \<open>Object.prototype\<close>: the constructor \<open>Object\<close>, the methods, and
  \<open>__proto__\<close>, which reads as \<open>Object.prototype\<close> itself. The texts are those of
  \<open>String\<close> on a built-in function and on a plain object.
\<close>

definition inherited :: "string \<Rightarrow> jsval" where
  "inherited k =
     (if k = ''constructor'' then JObject ''function Object() { [native code] }''
      else if k = ''__proto__'' then JObject ''[object Object]''
      else if k \<in> set prototypeMethods then JObject (''function '' @ k @ ''() { [native code] }'')
      else JUndefined)"

definition inheritedNames :: "string list" where
  "inheritedNames = ''constructor'' # ''__proto__'' # prototypeMethods"

definition getProp :: "obj \<Rightarrow> string \<Rightarrow> jsval" where
  "getProp ob k = (case map_of ob k of None \<Rightarrow> inherited k | Some v \<Rightarrow> v)"

definition keysOf :: "obj \<Rightarrow> string list" where
  "keysOf ob = map fst ob"

fun setProp :: "obj \<Rightarrow> string \<Rightarrow> jsval \<Rightarrow> obj" where
  "setProp [] k v = [(k, v)]"
| "setProp ((k', v') # ob) k v = (if k' = k then (k, v) # ob else (k', v') # setProp ob k v)"

text \<open>\<open>{ ...target, ...source }\<close>: the properties of the source written one by one.\<close>

definition spread :: "obj \<Rightarrow> obj \<Rightarrow> obj" where
  "spread target source = fold (\<lambda>(k, v) acc. setProp acc k v) source target"

section \<open>CSV serializer (src/lib/csvExport.js)\<close>

text \<open>The host capabilities the utility calls and the source does not define.\<close>

record env =
  toLocaleDateString :: "jsval \<Rightarrow> string"
  nowISO :: string
  deliver :: "string \<Rightarrow> string \<Rightarrow> string \<Rightarrow> bool"

definition strIncludes :: "string \<Rightarrow> char \<Rightarrow> bool" where
  "strIncludes s c = (c \<in> set s)"

text \<open>\<open>stringValue.replace(/"/g, '""')\<close>.\<close>

fun replaceQuotes :: "string \<Rightarrow> string" where
  "replaceQuotes [] = []"
| "replaceQuotes (c # cs) = (if c = dquote then dquote # dquote # replaceQuotes cs else c # replaceQuotes cs)"

definition escapeCSVValue :: "jsval \<Rightarrow> string" where
  "escapeCSVValue v =
     (if v = JNull \<or> v = JUndefined then []
      else let stringValue = toStringJS v in
        if strIncludes stringValue comma \<or> strIncludes stringValue dquote \<or> strIncludes stringValue newline
        then dquote # replaceQuotes stringValue @ [dquote]
        else stringValue)"

text \<open>Properties of an escaped cell, used to state what escaping guarantees.\<close>

definition hasDelimiter :: "string \<Rightarrow> bool" where
  "hasDelimiter s = (comma \<in> set s \<or> dquote \<in> set s \<or> newline \<in> set s)"

fun quotesPaired :: "string \<Rightarrow> bool" where
  "quotesPaired [] = True"
| "quotesPaired [c] = (c \<noteq> dquote)"
| "quotesPaired (c # d # r) = (if c = dquote then d = dquote \<and> quotesPaired r else quotesPaired (d # r))"

fun collapseQuotes :: "string \<Rightarrow> string" where
  "collapseQuotes [] = []"
| "collapseQuotes [c] = [c]"
| "collapseQuotes (c # d # r) =
     (if c = dquote \<and> d = dquote then dquote # collapseQuotes r else c # collapseQuotes (d # r))"

text \<open>
  The test \<open>value.match(/^\d{4}-\d{2}-\d{2}T\d{2}:\d{2}:\d{2}/)\<close>: the pattern is
  anchored at the start only, and \<open>d\<close> in the pattern text below stands for a digit.
\<close>

definition isDigit :: "char \<Rightarrow> bool" where
  "isDigit c = (c \<in> set ''0123456789'')"

fun matchesPrefix :: "string \<Rightarrow> string \<Rightarrow> bool" where
  "matchesPrefix [] s = True"
| "matchesPrefix (p # ps) [] = False"
| "matchesPrefix (p # ps) (c # cs) =
     ((if p = CHR ''d'' then isDigit c else c = p) \<and> matchesPrefix ps cs)"

definition looksLikeTimestamp :: "string \<Rightarrow> bool" where
  "looksLikeTimestamp s = matchesPrefix ''dddd-dd-ddTdd:dd:dd'' s"

text \<open>\<open>text.split('T')[0]\<close>.\<close>

definition beforeT :: "string \<Rightarrow> string" where
  "beforeT s = takeWhile (\<lambda>c. c \<noteq> CHR ''T'') s"

text \<open>\<open>Array.prototype.join\<close> on a list of strings.\<close>

fun joinWith :: "string \<Rightarrow> string list \<Rightarrow> string" where
  "joinWith sep [] = []"
| "joinWith sep [x] = x"
| "joinWith sep (x # y # r) = x @ sep @ joinWith sep (y # r)"

text \<open>
  The callback of the inner \<open>csvHeaders.map\<close>: the text of one cell, from the value
  \<open>row[header]\<close>.
\<close>

definition cellText :: "env \<Rightarrow> jsval \<Rightarrow> string" where
  "cellText e v =
     (case v of
        JDate dIso dTxt \<Rightarrow> escapeCSVValue (JStr (beforeT dIso))
      | JStr s \<Rightarrow>
          if looksLikeTimestamp s then escapeCSVValue (JStr (toLocaleDateString e (JStr s)))
          else escapeCSVValue v
      | _ \<Rightarrow> escapeCSVValue v)"

definition csvCell :: "env \<Rightarrow> obj \<Rightarrow> string \<Rightarrow> string" where
  "csvCell e row header = (let v = getProp row header in cellText e v)"

definition convertToCSV :: "env \<Rightarrow> obj list option \<Rightarrow> string list option \<Rightarrow> string" where
  "convertToCSV e rowsOpt headers =
     (case rowsOpt of
        None \<Rightarrow> []
      | Some [] \<Rightarrow> []
      | Some (first # rest) \<Rightarrow>
          let csvHeaders = (case headers of Some hs \<Rightarrow> hs | None \<Rightarrow> keysOf first);
              headerRow = joinWith [comma] (map (\<lambda>header. escapeCSVValue (JStr header)) csvHeaders);
              dataRows = map (\<lambda>row. joinWith [comma] (map (csvCell e row) csvHeaders)) (first # rest)
          in joinWith [newline] (headerRow # dataRows))"

section \<open>Report row formatter (src/lib/csvExport.js)\<close>

definition formatReport :: "env \<Rightarrow> obj \<Rightarrow> obj" where
  "formatReport e report =
     [(''ID'', getProp report ''id''),
      (''Title'', getProp report ''title''),
      (''Status'', getProp report ''status''),
      (''Department'', getProp report ''department''),
      (''Priority'', getProp report ''priority''),
      (''Author'', getProp report ''author''),
      (''Created Date'',
         if truthy (getProp report ''createdAt'')
         then JStr (toLocaleDateString e (getProp report ''createdAt'')) else JStr []),
      (''Updated Date'',
         if truthy (getProp report ''updatedAt'')
         then JStr (toLocaleDateString e (getProp report ''updatedAt'')) else JStr []),
      (''Record Count'', jsOr (getProp report ''recordCount'') (JStr [])),
      (''File Size'', jsOr (getProp report ''fileSize'') (JStr [])),
      (''Execution Time'', jsOr (getProp report ''executionTime'') (JStr []))]"

definition formatReportsForCSV :: "env \<Rightarrow> obj list option \<Rightarrow> obj list" where
  "formatReportsForCSV e reportsOpt =
     (case reportsOpt of
        None \<Rightarrow> []
      | Some reports \<Rightarrow> if length reports = 0 then [] else map (formatReport e) reports)"

definition REPORTS_CSV_HEADERS :: "string list" where
  "REPORTS_CSV_HEADERS =
     [''ID'', ''Title'', ''Status'', ''Department'', ''Priority'', ''Author'',
      ''Created Date'', ''Updated Date'', ''Record Count'', ''File Size'', ''Execution Time'']"

section \<open>File delivery and export orchestration (src/lib/csvExport.js)\<close>

text \<open>
  The exceptions of the export chain: the errors the code creates with \<open>new Error\<close>, and
  the \<open>TypeError\<close> and \<open>RangeError\<close> the runtime raises. Each carries its message.
\<close>

datatype error =
    Error (message: string)
  | TypeError (message: string)
  | RangeError (message: string)

text \<open>A delivered file: content, file name, MIME type.\<close>

type_synonym download = "string \<times> string \<times> string"

text \<open>
  \<open>downloadFile\<close>: the browser steps run inside \<open>try\<close>; \<open>deliver\<close> of the environment
  says whether they complete, and any exception of theirs is replaced by a fixed error.
\<close>

definition downloadFile :: "env \<Rightarrow> string \<Rightarrow> string \<Rightarrow> string \<Rightarrow> download list \<Rightarrow> error + download list" where
  "downloadFile e content fname mimeType done =
     (if deliver e content fname mimeType then Inr (done @ [(content, fname, mimeType)])
      else Inl (Error ''Failed to download file''))"

record export_result =
  success :: bool
  filename :: string

text \<open>The \<open>try\<close> block of \<open>exportAsCSV\<close>, then the function with its \<open>catch\<close>.\<close>

definition exportAsCSV_try ::
  "env \<Rightarrow> obj list option \<Rightarrow> string \<Rightarrow> string list option \<Rightarrow> download list
     \<Rightarrow> error + (export_result \<times> download list)" where
  "exportAsCSV_try e rowsOpt baseFilename headers done =
     (if rowsOpt = None \<or> rowsOpt = Some [] then Inl (Error ''No data to export'')
      else let csvContent = convertToCSV e rowsOpt headers in
        if csvContent = [] then Inl (Error ''Failed to convert data to CSV format'')
        else let date = beforeT (nowISO e);
                 fname = baseFilename @ ''-'' @ date @ ''.csv''
             in case downloadFile e csvContent fname ''text/csv'' done of
                  Inl err \<Rightarrow> Inl err
                | Inr done' \<Rightarrow> Inr (\<lparr>success = True, filename = fname\<rparr>, done'))"

definition exportAsCSV ::
  "env \<Rightarrow> obj list option \<Rightarrow> string \<Rightarrow> string list option \<Rightarrow> download list
     \<Rightarrow> error + (export_result \<times> download list)" where
  "exportAsCSV e rowsOpt baseFilename headers done =
     (case exportAsCSV_try e rowsOpt baseFilename headers done of
        Inl err \<Rightarrow> Inl (Error (''CSV export failed: '' @ message err))
      | Inr r \<Rightarrow> Inr r)"

section \<open>Export click handler of the App component\<close>

text \<open>
  The state the handler reads and writes: the loaded records (of type \<open>'r\<close>), the two
  \<open>useState\<close> cells, the files delivered so far and the delays of the \<open>setTimeout\<close>
  calls that will clear the message.
\<close>

record 'r app =
  appData :: "'r list option"
  exportLoading :: bool
  exportMessage :: string
  downloads :: "download list"
  clearTimers :: "nat list"

text \<open>The \<open>try\<close> block: an exception leaves it with the state reached so far.\<close>

definition handleExportCSV_try :: "env \<Rightarrow> obj app \<Rightarrow> (error \<times> obj app) + obj app" where
  "handleExportCSV_try e st =
     (let s1 = st\<lparr>exportLoading := True, exportMessage := []\<rparr> in
      case appData s1 of
        None \<Rightarrow> Inr (s1\<lparr>exportMessage := ''No data to export''\<rparr>)
      | Some [] \<Rightarrow> Inr (s1\<lparr>exportMessage := ''No data to export''\<rparr>)
      | Some (r # rs) \<Rightarrow>
          let formattedData = formatReportsForCSV e (appData s1) in
          case exportAsCSV e (Some formattedData) ''reports-export'' (Some REPORTS_CSV_HEADERS)
                 (downloads s1) of
            Inl err \<Rightarrow> Inl (err, s1)
          | Inr (result, done') \<Rightarrow>
              let s2 = s1\<lparr>downloads := done'\<rparr> in
              if success result
              then Inr (s2\<lparr>exportMessage :=
                          ''Successfully exported '' @ natToString (length (r # rs))
                            @ '' reports to '' @ filename result,
                        clearTimers := clearTimers s2 @ [5000]\<rparr>)
              else Inr s2)"

text \<open>The handler: \<open>try\<close>, \<open>catch\<close> and \<open>finally\<close>.\<close>

definition handleExportCSV :: "env \<Rightarrow> obj app \<Rightarrow> error + obj app" where
  "handleExportCSV e st =
     (case handleExportCSV_try e st of
        Inl (err, s) \<Rightarrow>
          Inr (s\<lparr>exportMessage := ''Export failed: '' @ message err,
                 clearTimers := clearTimers s @ [5000],
                 exportLoading := False\<rparr>)
      | Inr s \<Rightarrow> Inr (s\<lparr>exportLoading := False\<rparr>))"

section \<open>The export chain on any data\<close>

text \<open>
  The functions above are the export chain on well-formed data: every row and every
  report an object, every Date valid, so that no step raises. The same functions follow
  once more for the data the code can be handed at run time, where a row or a report
  may be \<open>null\<close> or \<open>undefined\<close> and a value may be a Date with an invalid time value; a
  property read on \<open>null\<close> or \<open>undefined\<close> raises a \<open>TypeError\<close>, \<open>Object.keys\<close> of them
  too, and \<open>toISOString()\<close> on an invalid Date raises a \<open>RangeError\<close>. The messages are
  those of the V8 engine.
\<close>

datatype rawval = Valid jsval | InvalidDate

datatype rawrow = Row "(string \<times> rawval) list" | NullRow | UndefinedRow

definition rawGet :: "(string \<times> rawval) list \<Rightarrow> string \<Rightarrow> rawval" where
  "rawGet props k = (case map_of props k of None \<Rightarrow> Valid (inherited k) | Some v \<Rightarrow> v)"

text \<open>\<open>row[k]\<close> and \<open>Object.keys(row)\<close>.\<close>

definition cannotRead :: "string \<Rightarrow> string \<Rightarrow> string" where
  "cannotRead what k =
     ''Cannot read properties of '' @ what @ '' (reading '' @ [CHR 0x27] @ k @ [CHR 0x27] @ '')''"

fun readProperty :: "rawrow \<Rightarrow> string \<Rightarrow> error + rawval" where
  "readProperty (Row props) k = Inr (rawGet props k)"
| "readProperty NullRow k = Inl (TypeError (cannotRead ''null'' k))"
| "readProperty UndefinedRow k = Inl (TypeError (cannotRead ''undefined'' k))"

fun objectKeys :: "rawrow \<Rightarrow> error + string list" where
  "objectKeys (Row props) = Inr (map fst props)"
| "objectKeys NullRow = Inl (TypeError ''Cannot convert undefined or null to object'')"
| "objectKeys UndefinedRow = Inl (TypeError ''Cannot convert undefined or null to object'')"

text \<open>\<open>Array.prototype.map\<close> with a callback that may raise: the first exception ends it.\<close>

fun mapE :: "('a \<Rightarrow> error + 'b) \<Rightarrow> 'a list \<Rightarrow> error + 'b list" where
  "mapE f [] = Inr []"
| "mapE f (x # xs) =
     (case f x of
        Inl err \<Rightarrow> Inl err
      | Inr y \<Rightarrow> (case mapE f xs of Inl err \<Rightarrow> Inl err | Inr ys \<Rightarrow> Inr (y # ys)))"

definition csvCell_full :: "env \<Rightarrow> rawrow \<Rightarrow> string \<Rightarrow> error + string" where
  "csvCell_full e row header =
     (case readProperty row header of
        Inl err \<Rightarrow> Inl err
      | Inr InvalidDate \<Rightarrow> Inl (RangeError ''Invalid time value'')
      | Inr (Valid v) \<Rightarrow> Inr (cellText e v))"

text \<open>The callback of the outer \<open>data.map\<close>: the line of one row.\<close>

definition csvLine_full :: "env \<Rightarrow> string list \<Rightarrow> rawrow \<Rightarrow> error + string" where
  "csvLine_full e csvHeaders row =
     (case mapE (csvCell_full e row) csvHeaders of
        Inl err \<Rightarrow> Inl err
      | Inr cells \<Rightarrow> Inr (joinWith [comma] cells))"

definition convertToCSV_full ::
  "env \<Rightarrow> rawrow list option \<Rightarrow> string list option \<Rightarrow> error + string" where
  "convertToCSV_full e rowsOpt headers =
     (case rowsOpt of
        None \<Rightarrow> Inr []
      | Some [] \<Rightarrow> Inr []
      | Some (first # rest) \<Rightarrow>
          (case (case headers of Some hs \<Rightarrow> Inr hs | None \<Rightarrow> objectKeys first) of
             Inl err \<Rightarrow> Inl err
           | Inr csvHeaders \<Rightarrow>
               let headerRow = joinWith [comma] (map (\<lambda>header. escapeCSVValue (JStr header)) csvHeaders)
               in case mapE (csvLine_full e csvHeaders) (first # rest) of
                    Inl err \<Rightarrow> Inl err
                  | Inr dataRows \<Rightarrow> Inr (joinWith [newline] (headerRow # dataRows))))"

text \<open>
  Truthiness and \<open>||\<close> on these values (an invalid Date is an object, hence truthy), and
  \<open>new Date(v).toLocaleDateString()\<close>, which for an invalid Date is the text
  \<open>Invalid Date\<close>.
\<close>

fun truthyRaw :: "rawval \<Rightarrow> bool" where
  "truthyRaw (Valid v) = truthy v"
| "truthyRaw InvalidDate = True"

definition orRaw :: "rawval \<Rightarrow> rawval \<Rightarrow> rawval" where
  "orRaw a b = (if truthyRaw a then a else b)"

fun localeDate :: "env \<Rightarrow> rawval \<Rightarrow> string" where
  "localeDate e (Valid v) = toLocaleDateString e v"
| "localeDate e InvalidDate = ''Invalid Date''"

text \<open>The callback of \<open>reports.map\<close>: its first property read is \<open>report.id\<close>.\<close>

fun formatReport_full :: "env \<Rightarrow> rawrow \<Rightarrow> error + rawrow" where
  "formatReport_full e (Row props) =
     Inr (Row
       [(''ID'', rawGet props ''id''),
        (''Title'', rawGet props ''title''),
        (''Status'', rawGet props ''status''),
        (''Department'', rawGet props ''department''),
        (''Priority'', rawGet props ''priority''),
        (''Author'', rawGet props ''author''),
        (''Created Date'',
           if truthyRaw (rawGet props ''createdAt'')
           then Valid (JStr (localeDate e (rawGet props ''createdAt''))) else Valid (JStr [])),
        (''Updated Date'',
           if truthyRaw (rawGet props ''updatedAt'')
           then Valid (JStr (localeDate e (rawGet props ''updatedAt''))) else Valid (JStr [])),
        (''Record Count'', orRaw (rawGet props ''recordCount'') (Valid (JStr []))),
        (''File Size'', orRaw (rawGet props ''fileSize'') (Valid (JStr []))),
        (''Execution Time'', orRaw (rawGet props ''executionTime'') (Valid (JStr [])))])"
| "formatReport_full e NullRow = Inl (TypeError (cannotRead ''null'' ''id''))"
| "formatReport_full e UndefinedRow = Inl (TypeError (cannotRead ''undefined'' ''id''))"

definition formatReportsForCSV_full :: "env \<Rightarrow> rawrow list option \<Rightarrow> error + rawrow list" where
  "formatReportsForCSV_full e reportsOpt =
     (case reportsOpt of
        None \<Rightarrow> Inr []
      | Some reports \<Rightarrow> if length reports = 0 then Inr [] else mapE (formatReport_full e) reports)"

definition exportAsCSV_try_full ::
  "env \<Rightarrow> rawrow list option \<Rightarrow> string \<Rightarrow> string list option \<Rightarrow> download list
     \<Rightarrow> error + (export_result \<times> download list)" where
  "exportAsCSV_try_full e rowsOpt baseFilename headers done =
     (if rowsOpt = None \<or> rowsOpt = Some [] then Inl (Error ''No data to export'')
      else case convertToCSV_full e rowsOpt headers of
        Inl err \<Rightarrow> Inl err
      | Inr csvContent \<Rightarrow>
          if csvContent = [] then Inl (Error ''Failed to convert data to CSV format'')
          else let date = beforeT (nowISO e);
                   fname = baseFilename @ ''-'' @ date @ ''.csv''
               in case downloadFile e csvContent fname ''text/csv'' done of
                    Inl err \<Rightarrow> Inl err
                  | Inr done' \<Rightarrow> Inr (\<lparr>success = True, filename = fname\<rparr>, done'))"

definition exportAsCSV_full ::
  "env \<Rightarrow> rawrow list option \<Rightarrow> string \<Rightarrow> string list option \<Rightarrow> download list
     \<Rightarrow> error + (export_result \<times> download list)" where
  "exportAsCSV_full e rowsOpt baseFilename headers done =
     (case exportAsCSV_try_full e rowsOpt baseFilename headers done of
        Inl err \<Rightarrow> Inl (Error (''CSV export failed: '' @ message err))
      | Inr r \<Rightarrow> Inr r)"

definition handleExportCSV_try_full ::
  "env \<Rightarrow> rawrow app \<Rightarrow> (error \<times> rawrow app) + rawrow app" where
  "handleExportCSV_try_full e st =
     (let s1 = st\<lparr>exportLoading := True, exportMessage := []\<rparr> in
      case appData s1 of
        None \<Rightarrow> Inr (s1\<lparr>exportMessage := ''No data to export''\<rparr>)
      | Some [] \<Rightarrow> Inr (s1\<lparr>exportMessage := ''No data to export''\<rparr>)
      | Some (r # rs) \<Rightarrow>
          (case formatReportsForCSV_full e (appData s1) of
             Inl err \<Rightarrow> Inl (err, s1)
           | Inr formattedData \<Rightarrow>
               (case exportAsCSV_full e (Some formattedData) ''reports-export''
                       (Some REPORTS_CSV_HEADERS) (downloads s1) of
                  Inl err \<Rightarrow> Inl (err, s1)
                | Inr (result, done') \<Rightarrow>
                    let s2 = s1\<lparr>downloads := done'\<rparr> in
                    if success result
                    then Inr (s2\<lparr>exportMessage :=
                                ''Successfully exported '' @ natToString (length (r # rs))
                                  @ '' reports to '' @ filename result,
                              clearTimers := clearTimers s2 @ [5000]\<rparr>)
                    else Inr s2)))"

definition handleExportCSV_full :: "env \<Rightarrow> rawrow app \<Rightarrow> error + rawrow app" where
  "handleExportCSV_full e st =
     (case handleExportCSV_try_full e st of
        Inl (err, s) \<Rightarrow>
          Inr (s\<lparr>exportMessage := ''Export failed: '' @ message err,
                 clearTimers := clearTimers s @ [5000],
                 exportLoading := False\<rparr>)
      | Inr s \<Rightarrow> Inr (s\<lparr>exportLoading := False\<rparr>))"

text \<open>Well-formed data among any data: an object with valid values.\<close>

definition rowOf :: "obj \<Rightarrow> rawrow" where
  "rowOf ob = Row (map (\<lambda>(k, v). (k, Valid v)) ob)"

definition appOf :: "obj app \<Rightarrow> rawrow app" where
  "appOf st =
     \<lparr>appData = map_option (map rowOf) (appData st), exportLoading = exportLoading st,
      exportMessage = exportMessage st, downloads = downloads st, clearTimers = clearTimers st\<rparr>"

section \<open>Debounce hook (src/hooks/useDebounce.js)\<close>

text \<open>
  The state of one \<open>useDebounce\<close> call site: the \<open>value\<close> and \<open>delay\<close> of the latest
  render (the dependencies of the effect), the \<open>debouncedValue\<close> cell, and the pending
  \<open>setTimeout\<close>, if any, as the milliseconds left and the \<open>value\<close> its callback closed
  over. The hook returns \<open>debouncedValue\<close>.
\<close>

record 'a debounce =
  latestValue :: 'a
  latestDelay :: nat
  debouncedValue :: 'a
  timer :: "(nat \<times> 'a) option"

text \<open>
  The delay is a whole number of milliseconds. \<open>setTimeout\<close> keeps it as a signed 32-bit
  integer: the delay is taken modulo 4294967296, and a result of 2147483648 or more,
  which reads as a negative number, counts as 0. Delays up to 2147483647 are kept as
  they are; a delay of 3000000000 fires at once.
\<close>

definition timeoutDelay :: "nat \<Rightarrow> nat" where
  "timeoutDelay d = (let w = d mod 4294967296 in if w < 2147483648 then w else 0)"

text \<open>First render: \<open>useState(value)\<close>, then the effect sets the first timer.\<close>

definition mount :: "'a \<Rightarrow> nat \<Rightarrow> 'a debounce" where
  "mount v d =
     \<lparr>latestValue = v, latestDelay = d, debouncedValue = v, timer = Some (timeoutDelay d, v)\<rparr>"

text \<open>
  A later render with arguments \<open>v\<close> and \<open>d\<close>: when a dependency changed, the cleanup of
  the previous effect clears its timer and the effect sets a new one; otherwise the
  effect does not run.
\<close>

definition render :: "'a \<Rightarrow> nat \<Rightarrow> 'a debounce \<Rightarrow> 'a debounce" where
  "render v d s =
     (if v = latestValue s \<and> d = latestDelay s then s
      else s\<lparr>latestValue := v, latestDelay := d, timer := Some (timeoutDelay d, v)\<rparr>)"

text \<open>
  \<open>n\<close> milliseconds pass: a pending timer whose time is up runs its callback,
  \<open>setDebouncedValue(value)\<close>; one with time left keeps waiting.
\<close>

definition elapse :: "nat \<Rightarrow> 'a debounce \<Rightarrow> 'a debounce" where
  "elapse n s =
     (case timer s of
        None \<Rightarrow> s
      | Some (r, v) \<Rightarrow>
          if r \<le> n then s\<lparr>debouncedValue := v, timer := None\<rparr>
          else s\<lparr>timer := Some (r - n, v)\<rparr>)"

datatype 'a event = Render 'a nat | Elapse nat

fun step :: "'a event \<Rightarrow> 'a debounce \<Rightarrow> 'a debounce" where
  "step (Render v d) s = render v d s"
| "step (Elapse n) s = elapse n s"

definition run :: "'a event list \<Rightarrow> 'a debounce \<Rightarrow> 'a debounce" where
  "run evs s = fold step evs s"

text \<open>
  What the statements about the hook speak of: the value and the delay the hook was
  last called with (the first render's, when no later render is among the events),
  events that leave the input as it is,
  the time a list of events takes, and a run of events at delay \<open>d\<close> in which the input
  is never left alone for \<open>d\<close> milliseconds (\<open>cur\<close> is the current input and \<open>t\<close> the
  time since it was set; a render with the same input does not restart that time).
\<close>

fun lastInput :: "'a \<Rightarrow> 'a event list \<Rightarrow> 'a" where
  "lastInput v [] = v"
| "lastInput v (Render v' d # evs) = lastInput v' evs"
| "lastInput v (Elapse n # evs) = lastInput v evs"

fun lastDelay :: "nat \<Rightarrow> 'a event list \<Rightarrow> nat" where
  "lastDelay d [] = d"
| "lastDelay d (Render v d' # evs) = lastDelay d' evs"
| "lastDelay d (Elapse n # evs) = lastDelay d evs"

fun unchanged :: "'a \<Rightarrow> nat \<Rightarrow> 'a event \<Rightarrow> bool" where
  "unchanged v d (Render v' d') = (v' = v \<and> d' = d)"
| "unchanged v d (Elapse n) = True"

fun isElapse :: "'a event \<Rightarrow> bool" where
  "isElapse (Render v d) = False"
| "isElapse (Elapse n) = True"

fun elapsed :: "'a event list \<Rightarrow> nat" where
  "elapsed [] = 0"
| "elapsed (Render v d # evs) = elapsed evs"
| "elapsed (Elapse n # evs) = n + elapsed evs"

fun withinWindow :: "nat \<Rightarrow> 'a \<Rightarrow> nat \<Rightarrow> 'a event list \<Rightarrow> bool" where
  "withinWindow d cur t [] = True"
| "withinWindow d cur t (Render v d' # evs) =
     (d' = d \<and> (if v = cur then withinWindow d cur t evs else withinWindow d v 0 evs))"
| "withinWindow d cur t (Elapse n # evs) = (t + n < d \<and> withinWindow d cur (t + n) evs)"

text \<open>
  The invariant of the hook: a pending timer carries the latest input and has at most
  the time \<open>setTimeout\<close> makes of the latest delay left; with no timer pending the
  output is the latest input.
\<close>

definition hookInv :: "'a debounce \<Rightarrow> bool" where
  "hookInv s =
     (case timer s of
        None \<Rightarrow> debouncedValue s = latestValue s
      | Some (r, v) \<Rightarrow> v = latestValue s \<and> r \<le> timeoutDelay (latestDelay s))"

section \<open>Filter form (FiltersForm component)\<close>

definition filterFields :: "string list" where
  "filterFields = [''status'', ''department'', ''priority'', ''dateFrom'', ''dateTo'', ''search'']"

text \<open>The initial value of the \<open>filters\<close> state cell.\<close>

definition initFilters :: "obj \<Rightarrow> obj" where
  "initFilters initialFilters =
     spread
       [(''status'', jsOr (getProp initialFilters ''status'') (JStr [])),
        (''department'', jsOr (getProp initialFilters ''department'') (JStr [])),
        (''priority'', jsOr (getProp initialFilters ''priority'') (JStr [])),
        (''dateFrom'', jsOr (getProp initialFilters ''dateFrom'') (JStr [])),
        (''dateTo'', jsOr (getProp initialFilters ''dateTo'') (JStr [])),
        (''search'', jsOr (getProp initialFilters ''search'') (JStr []))]
       initialFilters"

text \<open>
  The state of the form: the \<open>filters\<close> cell, the debounce hook of the search field, and
  the objects passed to \<open>onSubmit\<close> so far.
\<close>

record form =
  filters :: obj
  searchHook :: "jsval debounce"
  submitted :: "obj list"

text \<open>
  The body of the auto-submit effect: the object it passes to \<open>onSubmit\<close>, if it calls
  it. Strict inequality \<open>!==\<close> is inequality of the values for the primitive values.
\<close>

definition autoSubmit :: "obj \<Rightarrow> obj \<Rightarrow> jsval \<Rightarrow> obj option" where
  "autoSubmit initialFilters fs debouncedSearch =
     (let currentFilters = setProp fs ''search'' debouncedSearch;
          hasChanged = list_ex
            (\<lambda>key. getProp currentFilters key \<noteq> jsOr (getProp initialFilters key) (JStr []))
            (keysOf currentFilters)
      in if hasChanged then Some currentFilters else None)"

definition resetFilters :: obj where
  "resetFilters =
     [(''status'', JStr []), (''department'', JStr []), (''priority'', JStr []),
      (''dateFrom'', JStr []), (''dateTo'', JStr []), (''search'', JStr [])]"

definition handleReset :: "form \<Rightarrow> form" where
  "handleReset st = st\<lparr>filters := resetFilters, submitted := submitted st @ [resetFilters]\<rparr>"

definition handleChange :: "string \<Rightarrow> jsval \<Rightarrow> form \<Rightarrow> form" where
  "handleChange field v st = st\<lparr>filters := setProp (filters st) field v\<rparr>"

text \<open>What the statements about the form speak of.\<close>

fun isStr :: "jsval \<Rightarrow> bool" where
  "isStr (JStr s) = True"
| "isStr v = False"

definition stringValued :: "obj \<Rightarrow> bool" where
  "stringValued ob = (distinct (keysOf ob) \<and> list_all (\<lambda>(k, v). isStr v) ob)"

section \<open>Escaping\<close>

lemma quotesPaired_other: "c \<noteq> dquote \<Longrightarrow> quotesPaired (c # s) = quotesPaired s"
  by (cases s) simp_all

lemma collapseQuotes_other: "c \<noteq> dquote \<Longrightarrow> collapseQuotes (c # s) = c # collapseQuotes s"
  by (cases s) simp_all

lemma quotesPaired_replaceQuotes: "quotesPaired (replaceQuotes s)"
  by (induction s) (simp_all add: quotesPaired_other)

lemma collapseQuotes_replaceQuotes: "collapseQuotes (replaceQuotes s) = s"
  by (induction s) (simp_all add: collapseQuotes_other)

lemma count_replaceQuotes:
  "count_list (replaceQuotes s) dquote = 2 * count_list s dquote"
  by (induction s) simp_all

lemma escapeCSVValue_plain:
  "\<not> hasDelimiter (toStringJS v) \<Longrightarrow> escapeCSVValue v = (if nullish v then [] else toStringJS v)"
  by (auto simp: escapeCSVValue_def hasDelimiter_def strIncludes_def nullish_def Let_def)

lemma escapeCSVValue_quoted:
  "hasDelimiter s \<Longrightarrow> escapeCSVValue (JStr s) = dquote # replaceQuotes s @ [dquote]"
  by (auto simp: escapeCSVValue_def hasDelimiter_def strIncludes_def Let_def)

text \<open>
  C7. \<open>escapeCSVValue\<close> leaves a value whose string form has no comma, double quote or
  newline as its string form (the empty string for null and undefined), so escaping the
  result again changes nothing. For a string with a comma, a double quote or a newline
  the result is the string between two double quotes with every double quote of the
  input doubled: the part between the outer quotes has its double quotes in adjacent
  pairs only, twice as many as the input, and collapsing each pair gives the input back.
\<close>

theorem escapeCSVValue_idempotent_or_quoted:
  "(\<not> hasDelimiter (toStringJS v) \<longrightarrow>
      escapeCSVValue v = (if nullish v then [] else toStringJS v) \<and>
      escapeCSVValue (JStr (escapeCSVValue v)) = escapeCSVValue v) \<and>
   (hasDelimiter s \<longrightarrow>
      (\<exists>body. escapeCSVValue (JStr s) = dquote # body @ [dquote] \<and>
         hd (escapeCSVValue (JStr s)) = dquote \<and> last (escapeCSVValue (JStr s)) = dquote \<and>
         body = replaceQuotes s \<and> quotesPaired body \<and>
         count_list body dquote = 2 * count_list s dquote \<and>
         collapseQuotes body = s))"
proof (intro conjI impI)
  assume plain: "\<not> hasDelimiter (toStringJS v)"
  show first: "escapeCSVValue v = (if nullish v then [] else toStringJS v)"
    using plain by (rule escapeCSVValue_plain)
  have "\<not> hasDelimiter (toStringJS (JStr (escapeCSVValue v)))"
    using plain first by (simp add: hasDelimiter_def)
  then have "escapeCSVValue (JStr (escapeCSVValue v)) = escapeCSVValue v"
    by (simp add: escapeCSVValue_plain nullish_def)
  then show "escapeCSVValue (JStr (escapeCSVValue v)) = escapeCSVValue v" .
next
  assume delim: "hasDelimiter s"
  have eq: "escapeCSVValue (JStr s) = dquote # replaceQuotes s @ [dquote]"
    using delim by (rule escapeCSVValue_quoted)
  show "\<exists>body. escapeCSVValue (JStr s) = dquote # body @ [dquote] \<and>
         hd (escapeCSVValue (JStr s)) = dquote \<and> last (escapeCSVValue (JStr s)) = dquote \<and>
         body = replaceQuotes s \<and> quotesPaired body \<and>
         count_list body dquote = 2 * count_list s dquote \<and>
         collapseQuotes body = s"
    using eq quotesPaired_replaceQuotes [of s] count_replaceQuotes [of s]
      collapseQuotes_replaceQuotes [of s]
    by simp
qed

theorem escapeCSVValue_idempotent_or_quoted_witness:
  "\<not> hasDelimiter (toStringJS (JNum 42)) \<and> escapeCSVValue (JNum 42) = ''42'' \<and>
   escapeCSVValue (JStr (escapeCSVValue (JNum 42))) = ''42'' \<and>
   hasDelimiter ''a,b'' \<and> escapeCSVValue (JStr ''a,b'') = dquote # ''a,b'' @ [dquote]"
proof -
  have n: "toStringJS (JNum 42) = ''42''" by code_simp
  have p: "\<not> hasDelimiter (toStringJS (JNum 42))" unfolding n by (simp add: hasDelimiter_def)
  have d: "hasDelimiter ''a,b''" by (simp add: hasDelimiter_def)
  from escapeCSVValue_idempotent_or_quoted [of "JNum 42" "''a,b''"] p d
  have a: "escapeCSVValue (JNum 42) = (if nullish (JNum 42) then [] else toStringJS (JNum 42))"
    and b: "escapeCSVValue (JStr (escapeCSVValue (JNum 42))) = escapeCSVValue (JNum 42)"
    and c: "\<exists>body. escapeCSVValue (JStr ''a,b'') = dquote # body @ [dquote] \<and> body = replaceQuotes ''a,b''"
    by blast+
  from a [unfolded n] have a': "escapeCSVValue (JNum 42) = ''42''" by (simp add: nullish_def)
  from c have c': "escapeCSVValue (JStr ''a,b'') = dquote # ''a,b'' @ [dquote]" by simp
  show ?thesis using p d a' b c' by simp
qed

section \<open>Layout of the CSV text\<close>

lemma inherited_other: "k \<notin> set inheritedNames \<Longrightarrow> inherited k = JUndefined"
  by (simp add: inherited_def inheritedNames_def)

lemma inherited_is_object: "inherited k = JUndefined \<or> (\<exists>t. inherited k = JObject t)"
  by (simp add: inherited_def)

lemma cellText_inherited: "cellText e (inherited k) = escapeCSVValue (inherited k)"
  using inherited_is_object [of k] by (auto simp: cellText_def)

lemma csvCell_missing: "map_of row k = None \<Longrightarrow> csvCell e row k = escapeCSVValue (inherited k)"
  by (simp add: csvCell_def getProp_def cellText_inherited)

lemma convertToCSV_nonempty:
  "rows \<noteq> [] \<Longrightarrow> convertToCSV e (Some rows) hs =
     (let hdrs = (case hs of Some h \<Rightarrow> h | None \<Rightarrow> keysOf (hd rows)) in
      joinWith [newline]
        (joinWith [comma] (map (\<lambda>h. escapeCSVValue (JStr h)) hdrs)
         # map (\<lambda>row. joinWith [comma] (map (csvCell e row) hdrs)) rows))"
  by (cases rows) (simp_all add: convertToCSV_def Let_def split: option.splits)

lemma convertToCSV_example:
  "convertToCSV e (Some [[(''a'', JNum 1), (''b'', JNum 2)]]) None = ''a,b'' @ [newline] @ ''1,2''"
  by code_simp

lemma convertToCSV_has_newline:
  "rows \<noteq> [] \<Longrightarrow> newline \<in> set (convertToCSV e (Some rows) hs)"
  by (cases rows) (simp_all add: convertToCSV_def Let_def)

text \<open>
  C6 as stated does not hold: for the row \<open>{a: 1}\<close> and the headers \<open>a\<close> and
  \<open>constructor\<close>, the second header is not a key of the row, yet its cell is not the
  empty string: \<open>row[header]\<close> finds the constructor every object inherits.
\<close>

theorem convertToCSV_inherited_header_counterexample:
  "''constructor'' \<notin> set (keysOf [(''a'', JNum 1)]) \<and>
   csvCell \<lparr>toLocaleDateString = (\<lambda>v. []), nowISO = [], deliver = (\<lambda>c f m. True)\<rparr>
      [(''a'', JNum 1)] ''constructor'' = ''function Object() { [native code] }'' \<and>
   convertToCSV \<lparr>toLocaleDateString = (\<lambda>v. []), nowISO = [], deliver = (\<lambda>c f m. True)\<rparr>
      (Some [[(''a'', JNum 1)]]) (Some [''a'', ''constructor'']) =
     ''a,constructor'' @ [newline] @ ''1,function Object() { [native code] }''"
  by code_simp

text \<open>
  C6, amended. \<open>convertToCSV\<close> of an absent or empty row list is the empty string, with
  no header row. For a non-empty list the result is the lines joined by a newline, the
  header line first: the header line is the escaped headers joined by commas, the
  headers being the supplied ones or else the keys of the first row in the order
  \<open>Object.keys\<close> enumerates them; then one line per row, its cells taken in header order.
  A cell whose header is not a key of the row is the escaped text of what the row
  inherits under that name: the empty string, unless the header names a member of
  \<open>Object.prototype\<close> (\<open>constructor\<close>, \<open>__proto__\<close>, \<open>toString\<close>, \<open>valueOf\<close>,
  \<open>hasOwnProperty\<close> and the like). For the single row \<open>{a: 1, b: 2}\<close> without headers the
  text is \<open>a,b\<close>, a newline, \<open>1,2\<close>.
\<close>

theorem convertToCSV_layout:
  "convertToCSV e None hs = [] \<and> convertToCSV e (Some []) hs = [] \<and>
   (rows \<noteq> [] \<longrightarrow>
      (let hdrs = (case hs of Some h \<Rightarrow> h | None \<Rightarrow> keysOf (hd rows)) in
       convertToCSV e (Some rows) hs =
         joinWith [newline]
           (joinWith [comma] (map (\<lambda>h. escapeCSVValue (JStr h)) hdrs)
            # map (\<lambda>row. joinWith [comma] (map (csvCell e row) hdrs)) rows))) \<and>
   (k \<notin> set (keysOf row) \<longrightarrow> csvCell e row k = escapeCSVValue (inherited k)) \<and>
   (k \<notin> set (keysOf row) \<and> k \<notin> set inheritedNames \<longrightarrow> csvCell e row k = []) \<and>
   convertToCSV e (Some [[(''a'', JNum 1), (''b'', JNum 2)]]) None = ''a,b'' @ [newline] @ ''1,2''"
proof (intro conjI impI)
  show "convertToCSV e None hs = []" by (simp add: convertToCSV_def)
  show "convertToCSV e (Some []) hs = []" by (simp add: convertToCSV_def)
next
  assume "rows \<noteq> []"
  then show "let hdrs = (case hs of Some h \<Rightarrow> h | None \<Rightarrow> keysOf (hd rows)) in
       convertToCSV e (Some rows) hs =
         joinWith [newline]
           (joinWith [comma] (map (\<lambda>h. escapeCSVValue (JStr h)) hdrs)
            # map (\<lambda>row. joinWith [comma] (map (csvCell e row) hdrs)) rows)"
    using convertToCSV_nonempty [of rows e hs] by (simp add: Let_def)
next
  assume "k \<notin> set (keysOf row)"
  then have "map_of row k = None" by (simp add: keysOf_def map_of_eq_None_iff)
  then show "csvCell e row k = escapeCSVValue (inherited k)" by (rule csvCell_missing)
next
  assume h: "k \<notin> set (keysOf row) \<and> k \<notin> set inheritedNames"
  then have "map_of row k = None" by (simp add: keysOf_def map_of_eq_None_iff)
  then have "csvCell e row k = escapeCSVValue (inherited k)" by (rule csvCell_missing)
  moreover from h have "inherited k = JUndefined" by (simp add: inherited_other)
  ultimately show "csvCell e row k = []" by (simp add: escapeCSVValue_def)
next
  show "convertToCSV e (Some [[(''a'', JNum 1), (''b'', JNum 2)]]) None = ''a,b'' @ [newline] @ ''1,2''"
    by (rule convertToCSV_example)
qed

theorem convertToCSV_layout_witness:
  "[[(''x'', JStr ''p,q'')], [(''y'', JNum 5)]] \<noteq> [] \<and>
   convertToCSV \<lparr>toLocaleDateString = (\<lambda>v. []), nowISO = [], deliver = (\<lambda>c f m. True)\<rparr>
      (Some [[(''x'', JStr ''p,q'')], [(''y'', JNum 5)]]) None
     = ''x'' @ [newline] @ [dquote] @ ''p,q'' @ [dquote] @ [newline] \<and>
   ''x'' \<notin> set (keysOf [(''y'', JNum 5)]) \<and> ''x'' \<notin> set inheritedNames \<and>
   csvCell \<lparr>toLocaleDateString = (\<lambda>v. []), nowISO = [], deliver = (\<lambda>c f m. True)\<rparr>
      [(''y'', JNum 5)] ''x'' = []"
proof -
  let ?e = "\<lparr>toLocaleDateString = (\<lambda>v. []), nowISO = [], deliver = (\<lambda>c f m. True)\<rparr>"
  let ?rows = "[[(''x'', JStr ''p,q'')], [(''y'', JNum 5)]]"
  have ne: "?rows \<noteq> []" by simp
  have nk: "''x'' \<notin> set (keysOf [(''y'', JNum 5)])" by (simp add: keysOf_def)
  have ni: "''x'' \<notin> set inheritedNames" by (simp add: inheritedNames_def prototypeMethods_def)
  from convertToCSV_layout [of ?e None ?rows "''x''" "[(''y'', JNum 5)]"] ne nk ni
  have a: "(let hdrs = (case None of Some h \<Rightarrow> h | None \<Rightarrow> keysOf (hd ?rows)) in
       convertToCSV ?e (Some ?rows) None =
         joinWith [newline]
           (joinWith [comma] (map (\<lambda>h. escapeCSVValue (JStr h)) hdrs)
            # map (\<lambda>row. joinWith [comma] (map (csvCell ?e row) hdrs)) ?rows))"
    and b: "csvCell ?e [(''y'', JNum 5)] ''x'' = []"
    by blast+
  have c1: "csvCell ?e [(''x'', JStr ''p,q'')] ''x'' = [dquote] @ ''p,q'' @ [dquote]"
    by (simp add: csvCell_def cellText_def getProp_def looksLikeTimestamp_def escapeCSVValue_def
        strIncludes_def)
  have h: "escapeCSVValue (JStr ''x'') = ''x''"
    by (simp add: escapeCSVValue_def strIncludes_def)
  from a have "convertToCSV ?e (Some ?rows) None
     = ''x'' @ [newline] @ [dquote] @ ''p,q'' @ [dquote] @ [newline]"
    by (simp add: Let_def keysOf_def h c1 b)
  with ne nk ni b show ?thesis by simp
qed

text \<open>
  C10. For a non-empty row list and any headers argument the text \<open>convertToCSV\<close> returns
  contains a newline, so it is not empty; hence \<open>exportAsCSV\<close> on non-empty data never
  takes the branch that raises "Failed to convert data to CSV format", neither inside
  its \<open>try\<close> block nor as the wrapped error it rethrows.
\<close>

theorem convertToCSV_nonempty_has_newline:
  "rows \<noteq> [] \<Longrightarrow>
     newline \<in> set (convertToCSV e (Some rows) hs) \<and> convertToCSV e (Some rows) hs \<noteq> [] \<and>
     exportAsCSV_try e (Some rows) base hs done \<noteq> Inl (Error ''Failed to convert data to CSV format'') \<and>
     exportAsCSV e (Some rows) base hs done \<noteq> Inl (Error ''CSV export failed: Failed to convert data to CSV format'')"
proof -
  assume ne: "rows \<noteq> []"
  have nl: "newline \<in> set (convertToCSV e (Some rows) hs)"
    using ne by (rule convertToCSV_has_newline)
  then have nonempty: "convertToCSV e (Some rows) hs \<noteq> []" by auto
  have t: "exportAsCSV_try e (Some rows) base hs done \<noteq> Inl (Error ''Failed to convert data to CSV format'')"
    using ne nonempty by (simp add: exportAsCSV_try_def Let_def downloadFile_def split: sum.splits)
  have "exportAsCSV e (Some rows) base hs done \<noteq> Inl (Error ''CSV export failed: Failed to convert data to CSV format'')"
    using ne nonempty
    by (auto simp: exportAsCSV_def exportAsCSV_try_def Let_def downloadFile_def split: sum.splits if_splits)
  with nl nonempty t show ?thesis by simp
qed

theorem convertToCSV_nonempty_has_newline_witness:
  "[[]] \<noteq> ([] :: obj list) \<and>
   convertToCSV \<lparr>toLocaleDateString = (\<lambda>v. []), nowISO = [], deliver = (\<lambda>c f m. True)\<rparr> (Some [[]]) (Some []) = [newline] \<and>
   newline \<in> set (convertToCSV \<lparr>toLocaleDateString = (\<lambda>v. []), nowISO = [], deliver = (\<lambda>c f m. True)\<rparr> (Some [[]]) (Some [])) \<and>
   exportAsCSV \<lparr>toLocaleDateString = (\<lambda>v. []), nowISO = [], deliver = (\<lambda>c f m. True)\<rparr> (Some [[]]) ''export'' (Some []) []
     \<noteq> Inl (Error ''CSV export failed: Failed to convert data to CSV format'')"
proof -
  let ?e = "\<lparr>toLocaleDateString = (\<lambda>v. []), nowISO = [], deliver = (\<lambda>c f m. True)\<rparr>"
  have ne: "[[]] \<noteq> ([] :: obj list)" by simp
  have v: "convertToCSV ?e (Some [[]]) (Some []) = [newline]"
    by (simp add: convertToCSV_def)
  from convertToCSV_nonempty_has_newline [OF ne, of ?e "Some []" "''export''" "[]"] ne v
  show ?thesis by simp
qed

section \<open>Report rows\<close>

lemma headers_escaped:
  "map (\<lambda>h. escapeCSVValue (JStr h)) REPORTS_CSV_HEADERS = REPORTS_CSV_HEADERS"
  by (simp add: REPORTS_CSV_HEADERS_def escapeCSVValue_def strIncludes_def)

lemma header_line:
  "joinWith [comma] REPORTS_CSV_HEADERS =
     ''ID,Title,Status,Department,Priority,Author,Created Date,Updated Date,Record Count,File Size,Execution Time''"
  by (simp add: REPORTS_CSV_HEADERS_def)

lemma title_cell:
  "getProp report ''title'' = JStr ''A,B'' \<Longrightarrow>
     csvCell e (formatReport e report) ''Title'' = dquote # ''A,B'' @ [dquote]"
  by (simp add: csvCell_def cellText_def formatReport_def getProp_def [of "_ # _"]
      looksLikeTimestamp_def escapeCSVValue_def strIncludes_def)

text \<open>
  C8. For a list of report records in which record \<open>i\<close> has the title \<open>A,B\<close>,
  \<open>formatReportsForCSV\<close> followed by \<open>convertToCSV\<close> with \<open>REPORTS_CSV_HEADERS\<close> gives the
  header line and one line per record joined by newlines; line \<open>i\<close> is the cells of that
  record joined by commas, and the cell in the Title column (the second one) is \<open>A,B\<close>
  between double quotes.
\<close>

theorem title_with_comma_is_quoted:
  "i < length reports \<Longrightarrow> getProp (reports ! i) ''title'' = JStr ''A,B'' \<Longrightarrow>
     (\<exists>dataLines cells.
        convertToCSV e (Some (formatReportsForCSV e (Some reports))) (Some REPORTS_CSV_HEADERS) =
          joinWith [newline]
            (''ID,Title,Status,Department,Priority,Author,Created Date,Updated Date,Record Count,File Size,Execution Time''
             # dataLines) \<and>
        length dataLines = length reports \<and>
        dataLines ! i = joinWith [comma] cells \<and>
        cells = map (csvCell e (formatReportsForCSV e (Some reports) ! i)) REPORTS_CSV_HEADERS \<and>
        REPORTS_CSV_HEADERS ! 1 = ''Title'' \<and>
        cells ! 1 = dquote # ''A,B'' @ [dquote])"
proof -
  assume i: "i < length reports" and t: "getProp (reports ! i) ''title'' = JStr ''A,B''"
  let ?rows = "map (formatReport e) reports"
  let ?lines = "map (\<lambda>row. joinWith [comma] (map (csvCell e row) REPORTS_CSV_HEADERS)) ?rows"
  let ?cells = "map (csvCell e (formatReport e (reports ! i))) REPORTS_CSV_HEADERS"
  from i have ne: "reports \<noteq> []" by auto
  then have f: "formatReportsForCSV e (Some reports) = ?rows"
    by (simp add: formatReportsForCSV_def)
  from ne have "?rows \<noteq> []" by simp
  then have "convertToCSV e (Some ?rows) (Some REPORTS_CSV_HEADERS) =
      joinWith [newline] (joinWith [comma] (map (\<lambda>h. escapeCSVValue (JStr h)) REPORTS_CSV_HEADERS) # ?lines)"
    using convertToCSV_nonempty [of ?rows e "Some REPORTS_CSV_HEADERS"] by (simp add: Let_def)
  then have c: "convertToCSV e (Some ?rows) (Some REPORTS_CSV_HEADERS) =
      joinWith [newline] (''ID,Title,Status,Department,Priority,Author,Created Date,Updated Date,Record Count,File Size,Execution Time'' # ?lines)"
    by (simp only: headers_escaped header_line)
  have l: "?lines ! i = joinWith [comma] ?cells" using i by simp
  have h1: "REPORTS_CSV_HEADERS ! 1 = ''Title''" by (simp add: REPORTS_CSV_HEADERS_def)
  have "?cells ! 1 = csvCell e (formatReport e (reports ! i)) ''Title''"
    by (simp add: REPORTS_CSV_HEADERS_def)
  then have c1: "?cells ! 1 = dquote # ''A,B'' @ [dquote]" using title_cell [OF t] by simp
  have ri: "formatReportsForCSV e (Some reports) ! i = formatReport e (reports ! i)"
    using f i by simp
  show ?thesis
    apply (rule exI [of _ ?lines], rule exI [of _ ?cells])
    using c l h1 c1 f ri by simp
qed

theorem title_with_comma_is_quoted_witness:
  "(0::nat) < length [[(''id'', JNum 1), (''title'', JStr ''A,B''), (''status'', JStr ''draft'')]] \<and>
   getProp ([[(''id'', JNum 1), (''title'', JStr ''A,B''), (''status'', JStr ''draft'')]] ! 0) ''title'' = JStr ''A,B'' \<and>
   convertToCSV \<lparr>toLocaleDateString = (\<lambda>v. []), nowISO = [], deliver = (\<lambda>c f m. True)\<rparr>
     (Some (formatReportsForCSV \<lparr>toLocaleDateString = (\<lambda>v. []), nowISO = [], deliver = (\<lambda>c f m. True)\<rparr>
        (Some [[(''id'', JNum 1), (''title'', JStr ''A,B''), (''status'', JStr ''draft'')]])))
     (Some REPORTS_CSV_HEADERS) =
   ''ID,Title,Status,Department,Priority,Author,Created Date,Updated Date,Record Count,File Size,Execution Time''
     @ [newline] @ ''1,'' @ [dquote] @ ''A,B'' @ [dquote] @ '',draft,,,,,,,,''"
proof -
  let ?e = "\<lparr>toLocaleDateString = (\<lambda>v. []), nowISO = [], deliver = (\<lambda>c f m. True)\<rparr>"
  let ?reports = "[[(''id'', JNum 1), (''title'', JStr ''A,B''), (''status'', JStr ''draft'')]]"
  have i: "(0::nat) < length ?reports" by simp
  have t: "getProp (?reports ! 0) ''title'' = JStr ''A,B''" by (simp add: getProp_def)
  from title_with_comma_is_quoted [OF i t, of ?e]
  obtain dataLines cells where
    c: "convertToCSV ?e (Some (formatReportsForCSV ?e (Some ?reports))) (Some REPORTS_CSV_HEADERS) =
          joinWith [newline]
            (''ID,Title,Status,Department,Priority,Author,Created Date,Updated Date,Record Count,File Size,Execution Time''
             # dataLines)"
    and n: "length dataLines = length ?reports"
    and l: "dataLines ! 0 = joinWith [comma] cells"
    and cs: "cells = map (csvCell ?e (formatReportsForCSV ?e (Some ?reports) ! 0)) REPORTS_CSV_HEADERS"
    by blast
  have "cells = [''1'', [dquote] @ ''A,B'' @ [dquote], ''draft'', [], [], [], [], [], [], [], []]"
    unfolding cs by code_simp
  then have line: "joinWith [comma] cells = ''1,'' @ [dquote] @ ''A,B'' @ [dquote] @ '',draft,,,,,,,,''"
    by simp
  from n obtain d where dl: "dataLines = [d]" by (cases dataLines) auto
  with l line have "dataLines = [''1,'' @ [dquote] @ ''A,B'' @ [dquote] @ '',draft,,,,,,,,'']" by simp
  with c i t show ?thesis by simp
qed

text \<open>
  C1. The record \<open>{id: 7, title: "Nightly sync", recordCount: 0}\<close>: its record count,
  which is the number 0, is formatted as the empty string and not as 0, and the CSV line
  of the record has an empty Record Count cell. An absent record count is formatted as
  the empty string too, and a record count of 12 as 12.
\<close>

theorem formatReportsForCSV_zero_count_blank:
  "formatReportsForCSV e (Some [[(''id'', JNum 7), (''title'', JStr ''Nightly sync''), (''recordCount'', JNum 0)]]) =
     [formatReport e [(''id'', JNum 7), (''title'', JStr ''Nightly sync''), (''recordCount'', JNum 0)]] \<and>
   getProp (formatReport e [(''id'', JNum 7), (''title'', JStr ''Nightly sync''), (''recordCount'', JNum 0)]) ''Record Count'' = JStr [] \<and>
   getProp (formatReport e [(''id'', JNum 7), (''title'', JStr ''Nightly sync''), (''recordCount'', JNum 0)]) ''Record Count'' \<noteq> JNum 0 \<and>
   convertToCSV e (Some (formatReportsForCSV e (Some [[(''id'', JNum 7), (''title'', JStr ''Nightly sync''), (''recordCount'', JNum 0)]])))
     (Some [''ID'', ''Record Count'']) = ''ID,Record Count'' @ [newline] @ ''7,'' \<and>
   getProp (formatReport e [(''id'', JNum 7), (''title'', JStr ''Nightly sync'')]) ''Record Count'' = JStr [] \<and>
   getProp (formatReport e [(''id'', JNum 7), (''recordCount'', JNum 12)]) ''Record Count'' = JNum 12"
  by code_simp

section \<open>Export without data\<close>

text \<open>
  C3. When the export handler runs with an absent or empty record list, it returns
  normally with the message "No data to export", the list of delivered files and the
  pending timers are as before, whatever the delivery mechanism would have done; and
  \<open>exportAsCSV\<close> itself, given such a list, raises "CSV export failed: No data to export"
  before any delivery.
\<close>

theorem export_without_data_reports_no_data:
  "appData st = None \<or> appData st = Some [] \<Longrightarrow>
     handleExportCSV e st = Inr (st\<lparr>exportLoading := False, exportMessage := ''No data to export''\<rparr>) \<and>
     (\<exists>st'. handleExportCSV e st = Inr st' \<and> exportMessage st' = ''No data to export'' \<and>
        downloads st' = downloads st \<and> clearTimers st' = clearTimers st) \<and>
     exportAsCSV e (appData st) base hs done = Inl (Error ''CSV export failed: No data to export'')"
  by (auto simp: handleExportCSV_def handleExportCSV_try_def exportAsCSV_def exportAsCSV_try_def Let_def)

theorem export_without_data_reports_no_data_witness:
  "handleExportCSV \<lparr>toLocaleDateString = (\<lambda>v. []), nowISO = [], deliver = (\<lambda>c f m. True)\<rparr>
     \<lparr>appData = Some [], exportLoading = False, exportMessage = ''old'', downloads = [], clearTimers = []\<rparr>
   = Inr \<lparr>appData = Some [], exportLoading = False, exportMessage = ''No data to export'',
          downloads = [], clearTimers = []\<rparr> \<and>
   exportAsCSV \<lparr>toLocaleDateString = (\<lambda>v. []), nowISO = [], deliver = (\<lambda>c f m. True)\<rparr>
     (Some []) ''reports-export'' None [] = Inl (Error ''CSV export failed: No data to export'')"
  using export_without_data_reports_no_data
    [of "\<lparr>appData = Some [], exportLoading = False, exportMessage = ''old'', downloads = [], clearTimers = []\<rparr>"
        "\<lparr>toLocaleDateString = (\<lambda>v. []), nowISO = [], deliver = (\<lambda>c f m. True)\<rparr>"
        "''reports-export''" None "[]"]
  by simp

section \<open>Export failures\<close>

lemma mapE_length: "mapE f xs = Inr ys \<Longrightarrow> length ys = length xs"
  by (induction xs arbitrary: ys) (auto split: sum.splits)

lemma mapE_Inr: "(\<And>x. x \<in> set xs \<Longrightarrow> f x = Inr (g x)) \<Longrightarrow> mapE f xs = Inr (map g xs)"
  by (induction xs) simp_all

lemma join_has_newline: "dataRows \<noteq> [] \<Longrightarrow> newline \<in> set (joinWith [newline] (h # dataRows))"
  by (cases dataRows) simp_all

lemma convertToCSV_full_has_newline:
  assumes "rows \<noteq> []" and "convertToCSV_full e (Some rows) hs = Inr csv"
  shows "newline \<in> set csv"
proof -
  from assms(1) obtain r rs where rows: "rows = r # rs" by (cases rows) auto
  from assms(2) obtain csvHeaders dataRows where
    m: "mapE (csvLine_full e csvHeaders) (r # rs) = Inr dataRows"
    and csv: "csv = joinWith [newline]
        (joinWith [comma] (map (\<lambda>header. escapeCSVValue (JStr header)) csvHeaders) # dataRows)"
    unfolding rows convertToCSV_full_def
    by (auto simp: Let_def split: sum.splits)
  from mapE_length [OF m] have "dataRows \<noteq> []" by auto
  then show ?thesis unfolding csv by (rule join_has_newline)
qed

lemma formatReportsForCSV_full_length:
  "formatReportsForCSV_full e (Some rows) = Inr formatted \<Longrightarrow> length formatted = length rows"
  by (auto simp: formatReportsForCSV_def formatReportsForCSV_full_def mapE_length split: if_splits)

lemma csvCell_full_errors:
  "csvCell_full e row h = Inl err \<Longrightarrow> (\<exists>m. err = TypeError m) \<or> (\<exists>m. err = RangeError m)"
  by (cases row) (auto simp: csvCell_full_def split: sum.splits rawval.splits)

lemma mapE_errors:
  "mapE f xs = Inl err \<Longrightarrow> \<exists>x \<in> set xs. f x = Inl err"
  by (induction xs) (auto split: sum.splits)

lemma csvLine_full_errors:
  "csvLine_full e hs row = Inl err \<Longrightarrow> (\<exists>m. err = TypeError m) \<or> (\<exists>m. err = RangeError m)"
  unfolding csvLine_full_def
  by (auto split: sum.splits dest!: mapE_errors dest: csvCell_full_errors)

lemma objectKeys_errors: "objectKeys row = Inl err \<Longrightarrow> \<exists>m. err = TypeError m"
  by (cases row) auto

lemma convertToCSV_full_errors:
  "convertToCSV_full e rowsOpt hs = Inl err \<Longrightarrow> (\<exists>m. err = TypeError m) \<or> (\<exists>m. err = RangeError m)"
  unfolding convertToCSV_full_def
  by (auto simp: Let_def split: option.splits list.splits sum.splits
      dest!: mapE_errors dest: csvLine_full_errors objectKeys_errors)

lemma exportAsCSV_try_full_errors:
  assumes "exportAsCSV_try_full e rowsOpt base hs done = Inl err"
  shows "err = Error ''No data to export'' \<or> err = Error ''Failed to download file'' \<or>
         (\<exists>m. err = TypeError m) \<or> (\<exists>m. err = RangeError m)"
proof (cases "rowsOpt = None \<or> rowsOpt = Some []")
  case True
  with assms show ?thesis by (simp add: exportAsCSV_try_full_def)
next
  case False
  then obtain rows where rows: "rowsOpt = Some rows" "rows \<noteq> []" by (cases rowsOpt) auto
  show ?thesis
  proof (cases "convertToCSV_full e rowsOpt hs")
    case (Inl cerr)
    with assms False have "err = cerr" by (simp add: exportAsCSV_try_full_def)
    with convertToCSV_full_errors [OF Inl] show ?thesis by blast
  next
    case (Inr csv)
    with rows have "newline \<in> set csv" using convertToCSV_full_has_newline by blast
    then have "csv \<noteq> []" by auto
    with assms False Inr show ?thesis
      by (auto simp: exportAsCSV_try_full_def downloadFile_def Let_def split: if_splits)
  qed
qed

lemma exportAsCSV_full_wraps:
  "exportAsCSV_try_full e rowsOpt base hs done = Inl err \<Longrightarrow>
     exportAsCSV_full e rowsOpt base hs done = Inl (Error (''CSV export failed: '' @ message err))"
  by (simp add: exportAsCSV_full_def)

lemma exportAsCSV_full_conversion_error:
  assumes "rows \<noteq> []" and "convertToCSV_full e (Some rows) hs = Inl err"
  shows "exportAsCSV_full e (Some rows) base hs done = Inl (Error (''CSV export failed: '' @ message err))"
  using assms by (simp add: exportAsCSV_full_def exportAsCSV_try_full_def)

lemma exportAsCSV_full_delivery:
  assumes "rows \<noteq> []" and "convertToCSV_full e (Some rows) hs = Inr csv"
  shows "exportAsCSV_full e (Some rows) base hs done =
     (if deliver e csv (base @ ''-'' @ beforeT (nowISO e) @ ''.csv'') ''text/csv''
      then Inr (\<lparr>success = True, filename = base @ ''-'' @ beforeT (nowISO e) @ ''.csv''\<rparr>,
                done @ [(csv, base @ ''-'' @ beforeT (nowISO e) @ ''.csv'', ''text/csv'')])
      else Inl (Error ''CSV export failed: Failed to download file''))"
proof -
  from assms have "newline \<in> set csv" by (rule convertToCSV_full_has_newline)
  then have "csv \<noteq> []" by auto
  with assms show ?thesis
    by (simp add: exportAsCSV_full_def exportAsCSV_try_full_def downloadFile_def Let_def)
qed

lemma handleExportCSV_full_total: "\<exists>st'. handleExportCSV_full e st = Inr st' \<and> \<not> exportLoading st'"
  by (auto simp: handleExportCSV_full_def split: sum.splits prod.splits)

lemma handleExportCSV_full_caught:
  "handleExportCSV_try_full e st = Inl (err, s) \<Longrightarrow>
     handleExportCSV_full e st = Inr (s\<lparr>exportMessage := ''Export failed: '' @ message err,
                 clearTimers := clearTimers s @ [5000], exportLoading := False\<rparr>)"
  by (simp add: handleExportCSV_full_def)

lemma handleExportCSV_try_full_throw_state:
  "handleExportCSV_try_full e st = Inl (err, s) \<Longrightarrow> downloads s = downloads st"
  by (auto simp: handleExportCSV_try_full_def Let_def
      split: option.splits list.splits sum.splits prod.splits if_splits)

lemma handleExportCSV_full_no_data:
  "appData st = None \<or> appData st = Some [] \<Longrightarrow>
     handleExportCSV_full e st = Inr (st\<lparr>exportLoading := False, exportMessage := ''No data to export''\<rparr>)"
  by (auto simp: handleExportCSV_full_def handleExportCSV_try_full_def Let_def)

lemma handleExportCSV_full_format_error:
  assumes "appData st = Some rows" and "rows \<noteq> []"
    and "formatReportsForCSV_full e (Some rows) = Inl err"
  shows "handleExportCSV_full e st =
     Inr (st\<lparr>exportLoading := False, exportMessage := ''Export failed: '' @ message err,
             clearTimers := clearTimers st @ [5000]\<rparr>)"
proof -
  from assms(2) obtain r rs where rows: "rows = r # rs" by (cases rows) auto
  with assms show ?thesis
    by (simp add: handleExportCSV_full_def handleExportCSV_try_full_def Let_def)
qed

lemma handleExportCSV_full_conversion_error:
  assumes "appData st = Some rows" and "rows \<noteq> []"
    and "formatReportsForCSV_full e (Some rows) = Inr formatted"
    and "convertToCSV_full e (Some formatted) (Some REPORTS_CSV_HEADERS) = Inl err"
  shows "handleExportCSV_full e st =
     Inr (st\<lparr>exportLoading := False,
             exportMessage := ''Export failed: CSV export failed: '' @ message err,
             clearTimers := clearTimers st @ [5000]\<rparr>)"
proof -
  from assms(2) obtain r rs where rows: "rows = r # rs" by (cases rows) auto
  from assms(2,3) have "formatted \<noteq> []" using formatReportsForCSV_full_length by fastforce
  from exportAsCSV_full_conversion_error [OF this assms(4)] assms(1,3) rows show ?thesis
    by (simp add: handleExportCSV_full_def handleExportCSV_try_full_def Let_def)
qed

lemma handleExportCSV_full_delivery_error:
  assumes "appData st = Some rows" and "rows \<noteq> []"
    and "formatReportsForCSV_full e (Some rows) = Inr formatted"
    and "convertToCSV_full e (Some formatted) (Some REPORTS_CSV_HEADERS) = Inr csv"
    and "\<not> deliver e csv (''reports-export-'' @ beforeT (nowISO e) @ ''.csv'') ''text/csv''"
  shows "handleExportCSV_full e st =
     Inr (st\<lparr>exportLoading := False,
             exportMessage := ''Export failed: CSV export failed: Failed to download file'',
             clearTimers := clearTimers st @ [5000]\<rparr>)"
proof -
  from assms(2) obtain r rs where rows: "rows = r # rs" by (cases rows) auto
  from assms(2,3) have "formatted \<noteq> []" using formatReportsForCSV_full_length by fastforce
  from exportAsCSV_full_delivery [OF this assms(4), of "''reports-export''" "downloads st"] assms(5)
  have "exportAsCSV_full e (Some formatted) ''reports-export'' (Some REPORTS_CSV_HEADERS) (downloads st)
      = Inl (Error ''CSV export failed: Failed to download file'')" by simp
  with assms(1,3) rows show ?thesis
    by (simp add: handleExportCSV_full_def handleExportCSV_try_full_def Let_def)
qed

lemma handleExportCSV_full_success:
  assumes "appData st = Some rows" and "rows \<noteq> []"
    and "formatReportsForCSV_full e (Some rows) = Inr formatted"
    and "convertToCSV_full e (Some formatted) (Some REPORTS_CSV_HEADERS) = Inr csv"
    and "deliver e csv (''reports-export-'' @ beforeT (nowISO e) @ ''.csv'') ''text/csv''"
  shows "handleExportCSV_full e st =
     Inr (st\<lparr>exportLoading := False,
             exportMessage := ''Successfully exported '' @ natToString (length rows) @ '' reports to ''
               @ ''reports-export-'' @ beforeT (nowISO e) @ ''.csv'',
             downloads := downloads st @
               [(csv, ''reports-export-'' @ beforeT (nowISO e) @ ''.csv'', ''text/csv'')],
             clearTimers := clearTimers st @ [5000]\<rparr>)"
proof -
  from assms(2) obtain r rs where rows: "rows = r # rs" by (cases rows) auto
  from assms(2,3) have "formatted \<noteq> []" using formatReportsForCSV_full_length by fastforce
  from exportAsCSV_full_delivery [OF this assms(4), of "''reports-export''" "downloads st"] assms(5)
  have "exportAsCSV_full e (Some formatted) ''reports-export'' (Some REPORTS_CSV_HEADERS) (downloads st)
      = Inr (\<lparr>success = True, filename = ''reports-export-'' @ beforeT (nowISO e) @ ''.csv''\<rparr>,
             downloads st @ [(csv, ''reports-export-'' @ beforeT (nowISO e) @ ''.csv'', ''text/csv'')])"
    by simp
  with assms(1,3) rows show ?thesis
    by (simp add: handleExportCSV_full_def handleExportCSV_try_full_def Let_def)
qed

text \<open>On well-formed data the chain on any data does what the chain above does.\<close>

lemma rawGet_rowOf: "rawGet (map (\<lambda>(k, v). (k, Valid v)) ob) k = Valid (getProp ob k)"
  by (induction ob) (auto simp: rawGet_def getProp_def)

lemma csvCell_full_rowOf: "csvCell_full e (rowOf row) h = Inr (csvCell e row h)"
  by (simp add: csvCell_full_def rowOf_def rawGet_rowOf csvCell_def)

lemma csvLine_full_rowOf:
  "csvLine_full e hs (rowOf row) = Inr (joinWith [comma] (map (csvCell e row) hs))"
  by (simp add: csvLine_full_def mapE_Inr [of hs _ "csvCell e row"] csvCell_full_rowOf)

lemma objectKeys_rowOf: "objectKeys (rowOf row) = Inr (keysOf row)"
  by (simp add: rowOf_def keysOf_def comp_def case_prod_unfold)

lemma csvLines_full_rowOf:
  "mapE (csvLine_full e hdrs) (map rowOf rows) =
     Inr (map (\<lambda>row. joinWith [comma] (map (csvCell e row) hdrs)) rows)"
  by (induction rows) (simp_all add: csvLine_full_rowOf)

lemma convertToCSV_full_rowOf:
  "convertToCSV_full e (map_option (map rowOf) rowsOpt) hs = Inr (convertToCSV e rowsOpt hs)"
proof (cases rowsOpt)
  case None
  then show ?thesis by (simp add: convertToCSV_full_def convertToCSV_def)
next
  case (Some rows)
  show ?thesis
  proof (cases rows)
    case Nil
    with Some show ?thesis by (simp add: convertToCSV_full_def convertToCSV_def)
  next
    case (Cons r rs)
    have m: "mapE (csvLine_full e hdrs) (rowOf r # map rowOf rs) =
        Inr (map (\<lambda>row. joinWith [comma] (map (csvCell e row) hdrs)) (r # rs))" for hdrs
      using csvLines_full_rowOf [of e hdrs "r # rs"] by simp
    from Some Cons show ?thesis
      by (cases hs) (simp_all add: convertToCSV_full_def convertToCSV_def objectKeys_rowOf Let_def m
          del: mapE.simps)
  qed
qed

lemma formatReport_full_rowOf: "formatReport_full e (rowOf r) = Inr (rowOf (formatReport e r))"
  by (simp add: rowOf_def formatReport_def rawGet_rowOf orRaw_def jsOr_def)

lemma formatReportsForCSV_full_rowOf:
  "formatReportsForCSV_full e (map_option (map rowOf) reportsOpt) =
     Inr (map rowOf (formatReportsForCSV e reportsOpt))"
proof (cases reportsOpt)
  case None
  then show ?thesis by (simp add: formatReportsForCSV_full_def formatReportsForCSV_def)
next
  case (Some reports)
  have "mapE (formatReport_full e) (map rowOf reports) = Inr (map (rowOf \<circ> formatReport e) reports)"
    by (induction reports) (simp_all add: formatReport_full_rowOf del: formatReport_full.simps)
  with Some show ?thesis
    by (simp add: formatReportsForCSV_full_def formatReportsForCSV_def)
qed

lemma exportAsCSV_full_rowOf:
  "exportAsCSV_full e (map_option (map rowOf) rowsOpt) base hs done = exportAsCSV e rowsOpt base hs done"
proof -
  have "exportAsCSV_try_full e (map_option (map rowOf) rowsOpt) base hs done =
      exportAsCSV_try e rowsOpt base hs done"
    by (cases rowsOpt) (auto simp: exportAsCSV_try_full_def exportAsCSV_try_def Let_def
        convertToCSV_full_rowOf [of e "Some _", simplified])
  then show ?thesis by (simp add: exportAsCSV_full_def exportAsCSV_def)
qed

lemma handleExportCSV_full_appOf:
  "handleExportCSV_full e (appOf st) =
     (case handleExportCSV e st of Inl err \<Rightarrow> Inl err | Inr s \<Rightarrow> Inr (appOf s))"
proof (cases "appData st")
  case None
  then show ?thesis
    by (simp add: handleExportCSV_full_def handleExportCSV_try_full_def handleExportCSV_def
        handleExportCSV_try_def appOf_def Let_def)
next
  case (Some rows)
  show ?thesis
  proof (cases rows)
    case Nil
    with Some show ?thesis
      by (simp add: handleExportCSV_full_def handleExportCSV_try_full_def handleExportCSV_def
          handleExportCSV_try_def appOf_def Let_def)
  next
    case (Cons r rs)
    have f: "formatReportsForCSV_full e (Some (rowOf r # map rowOf rs)) =
        Inr (map rowOf (formatReportsForCSV e (Some (r # rs))))"
      using formatReportsForCSV_full_rowOf [of e "Some (r # rs)"] by simp
    have x: "exportAsCSV_full e (Some (map rowOf (formatReportsForCSV e (Some (r # rs)))))
        ''reports-export'' (Some REPORTS_CSV_HEADERS) (downloads st) =
        exportAsCSV e (Some (formatReportsForCSV e (Some (r # rs)))) ''reports-export''
          (Some REPORTS_CSV_HEADERS) (downloads st)"
      using exportAsCSV_full_rowOf [of e "Some (formatReportsForCSV e (Some (r # rs)))"] by simp
    from Some Cons show ?thesis
      by (simp add: handleExportCSV_full_def handleExportCSV_try_full_def handleExportCSV_def
          handleExportCSV_try_def appOf_def Let_def f x split: sum.splits prod.splits)
  qed
qed

text \<open>
  C9. On any data the export handler returns normally, with the loading flag cleared;
  whenever its \<open>try\<close> block raises an error, the message shown is "Export failed: "
  followed by that error's message, and no file has been delivered. An error of the
  \<open>try\<close> block of \<open>exportAsCSV\<close> is the no-data error, the delivery error, a \<open>TypeError\<close> or
  a \<open>RangeError\<close> of the conversion, and is rethrown with "CSV export failed: " before
  its message. Case by case: with no data the handler shows "No data to export"; when
  formatting the reports raises, "Export failed: " and the message; when the conversion
  raises, "Export failed: CSV export failed: " and the message; when the delivery
  fails, "Export failed: CSV export failed: Failed to download file"; otherwise the
  file is delivered and the success message shown.
\<close>

theorem export_failures_become_messages:
  "(\<exists>st'. handleExportCSV_full e st = Inr st' \<and> \<not> exportLoading st' \<and>
      (\<forall>err s. handleExportCSV_try_full e st = Inl (err, s) \<longrightarrow>
         exportMessage st' = ''Export failed: '' @ message err \<and> downloads st' = downloads st)) \<and>
   (exportAsCSV_try_full e rowsOpt base hs done = Inl err0 \<longrightarrow>
      (err0 = Error ''No data to export'' \<or> err0 = Error ''Failed to download file'' \<or>
       (\<exists>m. err0 = TypeError m) \<or> (\<exists>m. err0 = RangeError m)) \<and>
      exportAsCSV_full e rowsOpt base hs done = Inl (Error (''CSV export failed: '' @ message err0))) \<and>
   (appData st = None \<or> appData st = Some [] \<longrightarrow>
      handleExportCSV_full e st =
        Inr (st\<lparr>exportLoading := False, exportMessage := ''No data to export''\<rparr>)) \<and>
   (appData st = Some rows \<and> rows \<noteq> [] \<and> formatReportsForCSV_full e (Some rows) = Inl err1 \<longrightarrow>
      handleExportCSV_full e st =
        Inr (st\<lparr>exportLoading := False, exportMessage := ''Export failed: '' @ message err1,
                clearTimers := clearTimers st @ [5000]\<rparr>)) \<and>
   (appData st = Some rows \<and> rows \<noteq> [] \<and> formatReportsForCSV_full e (Some rows) = Inr formatted \<and>
      convertToCSV_full e (Some formatted) (Some REPORTS_CSV_HEADERS) = Inl err2 \<longrightarrow>
      handleExportCSV_full e st =
        Inr (st\<lparr>exportLoading := False,
                exportMessage := ''Export failed: CSV export failed: '' @ message err2,
                clearTimers := clearTimers st @ [5000]\<rparr>)) \<and>
   (appData st = Some rows \<and> rows \<noteq> [] \<and> formatReportsForCSV_full e (Some rows) = Inr formatted \<and>
      convertToCSV_full e (Some formatted) (Some REPORTS_CSV_HEADERS) = Inr csv \<and>
      \<not> deliver e csv (''reports-export-'' @ beforeT (nowISO e) @ ''.csv'') ''text/csv'' \<longrightarrow>
      handleExportCSV_full e st =
        Inr (st\<lparr>exportLoading := False,
                exportMessage := ''Export failed: CSV export failed: Failed to download file'',
                clearTimers := clearTimers st @ [5000]\<rparr>)) \<and>
   (appData st = Some rows \<and> rows \<noteq> [] \<and> formatReportsForCSV_full e (Some rows) = Inr formatted \<and>
      convertToCSV_full e (Some formatted) (Some REPORTS_CSV_HEADERS) = Inr csv \<and>
      deliver e csv (''reports-export-'' @ beforeT (nowISO e) @ ''.csv'') ''text/csv'' \<longrightarrow>
      handleExportCSV_full e st =
        Inr (st\<lparr>exportLoading := False,
                exportMessage := ''Successfully exported '' @ natToString (length rows) @ '' reports to ''
                  @ ''reports-export-'' @ beforeT (nowISO e) @ ''.csv'',
                downloads := downloads st @
                  [(csv, ''reports-export-'' @ beforeT (nowISO e) @ ''.csv'', ''text/csv'')],
                clearTimers := clearTimers st @ [5000]\<rparr>))"
proof (intro conjI impI)
  from handleExportCSV_full_total obtain st' where
    r: "handleExportCSV_full e st = Inr st'" and l: "\<not> exportLoading st'" by blast
  have "\<forall>err s. handleExportCSV_try_full e st = Inl (err, s) \<longrightarrow>
         exportMessage st' = ''Export failed: '' @ message err \<and> downloads st' = downloads st"
  proof (intro allI impI)
    fix err s assume t: "handleExportCSV_try_full e st = Inl (err, s)"
    from handleExportCSV_full_caught [OF t] r handleExportCSV_try_full_throw_state [OF t]
    show "exportMessage st' = ''Export failed: '' @ message err \<and> downloads st' = downloads st"
      by auto
  qed
  with r l show "\<exists>st'. handleExportCSV_full e st = Inr st' \<and> \<not> exportLoading st' \<and>
      (\<forall>err s. handleExportCSV_try_full e st = Inl (err, s) \<longrightarrow>
         exportMessage st' = ''Export failed: '' @ message err \<and> downloads st' = downloads st)"
    by blast
next
  assume "exportAsCSV_try_full e rowsOpt base hs done = Inl err0"
  then show "err0 = Error ''No data to export'' \<or> err0 = Error ''Failed to download file'' \<or>
       (\<exists>m. err0 = TypeError m) \<or> (\<exists>m. err0 = RangeError m)"
    by (rule exportAsCSV_try_full_errors)
next
  assume "exportAsCSV_try_full e rowsOpt base hs done = Inl err0"
  then show "exportAsCSV_full e rowsOpt base hs done = Inl (Error (''CSV export failed: '' @ message err0))"
    by (rule exportAsCSV_full_wraps)
next
  assume "appData st = None \<or> appData st = Some []"
  then show "handleExportCSV_full e st =
        Inr (st\<lparr>exportLoading := False, exportMessage := ''No data to export''\<rparr>)"
    by (rule handleExportCSV_full_no_data)
next
  assume "appData st = Some rows \<and> rows \<noteq> [] \<and> formatReportsForCSV_full e (Some rows) = Inl err1"
  then show "handleExportCSV_full e st =
        Inr (st\<lparr>exportLoading := False, exportMessage := ''Export failed: '' @ message err1,
                clearTimers := clearTimers st @ [5000]\<rparr>)"
    using handleExportCSV_full_format_error [of st rows e err1] by blast
next
  assume "appData st = Some rows \<and> rows \<noteq> [] \<and> formatReportsForCSV_full e (Some rows) = Inr formatted \<and>
      convertToCSV_full e (Some formatted) (Some REPORTS_CSV_HEADERS) = Inl err2"
  then show "handleExportCSV_full e st =
        Inr (st\<lparr>exportLoading := False,
                exportMessage := ''Export failed: CSV export failed: '' @ message err2,
                clearTimers := clearTimers st @ [5000]\<rparr>)"
    using handleExportCSV_full_conversion_error [of st rows e formatted err2] by blast
next
  assume "appData st = Some rows \<and> rows \<noteq> [] \<and> formatReportsForCSV_full e (Some rows) = Inr formatted \<and>
      convertToCSV_full e (Some formatted) (Some REPORTS_CSV_HEADERS) = Inr csv \<and>
      \<not> deliver e csv (''reports-export-'' @ beforeT (nowISO e) @ ''.csv'') ''text/csv''"
  then show "handleExportCSV_full e st =
        Inr (st\<lparr>exportLoading := False,
                exportMessage := ''Export failed: CSV export failed: Failed to download file'',
                clearTimers := clearTimers st @ [5000]\<rparr>)"
    using handleExportCSV_full_delivery_error [of st rows e formatted csv] by blast
next
  assume "appData st = Some rows \<and> rows \<noteq> [] \<and> formatReportsForCSV_full e (Some rows) = Inr formatted \<and>
      convertToCSV_full e (Some formatted) (Some REPORTS_CSV_HEADERS) = Inr csv \<and>
      deliver e csv (''reports-export-'' @ beforeT (nowISO e) @ ''.csv'') ''text/csv''"
  then show "handleExportCSV_full e st =
        Inr (st\<lparr>exportLoading := False,
                exportMessage := ''Successfully exported '' @ natToString (length rows) @ '' reports to ''
                  @ ''reports-export-'' @ beforeT (nowISO e) @ ''.csv'',
                downloads := downloads st @
                  [(csv, ''reports-export-'' @ beforeT (nowISO e) @ ''.csv'', ''text/csv'')],
                clearTimers := clearTimers st @ [5000]\<rparr>)"
    using handleExportCSV_full_success [of st rows e formatted csv] by blast
qed

theorem export_failures_become_messages_witness:
  "handleExportCSV_full
     \<lparr>toLocaleDateString = (\<lambda>v. []), nowISO = ''2024-05-06T07:08:09.000Z'', deliver = (\<lambda>c f m. False)\<rparr>
     \<lparr>appData = Some [NullRow], exportLoading = False, exportMessage = [], downloads = [], clearTimers = []\<rparr>
   = Inr \<lparr>appData = Some [NullRow], exportLoading = False,
          exportMessage = ''Export failed: Cannot read properties of null (reading '' @ [CHR 0x27] @ ''id''
             @ [CHR 0x27] @ '')'',
          downloads = [], clearTimers = [5000]\<rparr> \<and>
   handleExportCSV_full
     \<lparr>toLocaleDateString = (\<lambda>v. []), nowISO = ''2024-05-06T07:08:09.000Z'', deliver = (\<lambda>c f m. False)\<rparr>
     \<lparr>appData = Some [Row [(''id'', InvalidDate)]], exportLoading = False, exportMessage = [],
      downloads = [], clearTimers = []\<rparr>
   = Inr \<lparr>appData = Some [Row [(''id'', InvalidDate)]], exportLoading = False,
          exportMessage = ''Export failed: CSV export failed: Invalid time value'',
          downloads = [], clearTimers = [5000]\<rparr> \<and>
   handleExportCSV_full
     \<lparr>toLocaleDateString = (\<lambda>v. []), nowISO = ''2024-05-06T07:08:09.000Z'', deliver = (\<lambda>c f m. False)\<rparr>
     \<lparr>appData = Some [Row [(''id'', Valid (JNum 1))]], exportLoading = False, exportMessage = [],
      downloads = [], clearTimers = []\<rparr>
   = Inr \<lparr>appData = Some [Row [(''id'', Valid (JNum 1))]], exportLoading = False,
          exportMessage = ''Export failed: CSV export failed: Failed to download file'',
          downloads = [], clearTimers = [5000]\<rparr> \<and>
   exportAsCSV_full
     \<lparr>toLocaleDateString = (\<lambda>v. []), nowISO = ''2024-05-06T07:08:09.000Z'', deliver = (\<lambda>c f m. False)\<rparr>
     (Some [NullRow]) ''export'' None [] =
     Inl (Error ''CSV export failed: Cannot convert undefined or null to object'')"
proof -
  let ?e = "\<lparr>toLocaleDateString = (\<lambda>v. []), nowISO = ''2024-05-06T07:08:09.000Z'', deliver = (\<lambda>c f m. False)\<rparr>"
  let ?st = "\<lambda>rows. \<lparr>appData = Some rows, exportLoading = False, exportMessage = [],
      downloads = ([] :: download list), clearTimers = ([] :: nat list)\<rparr>"
  let ?bad = "Row [(''id'', InvalidDate)]"
  let ?good = "Row [(''id'', Valid (JNum 1))]"
  have f1: "formatReportsForCSV_full ?e (Some [NullRow]) = Inl (TypeError (cannotRead ''null'' ''id''))"
    by (simp add: formatReportsForCSV_full_def)
  obtain fb where f2: "formatReportsForCSV_full ?e (Some [?bad]) = Inr fb"
    and c2: "convertToCSV_full ?e (Some fb) (Some REPORTS_CSV_HEADERS) = Inl (RangeError ''Invalid time value'')"
    by (simp add: formatReportsForCSV_full_def convertToCSV_full_def csvLine_full_def csvCell_full_def
        rawGet_def REPORTS_CSV_HEADERS_def)
  obtain fg csv where f3: "formatReportsForCSV_full ?e (Some [?good]) = Inr fg"
    and c3: "convertToCSV_full ?e (Some fg) (Some REPORTS_CSV_HEADERS) = Inr csv"
    using convertToCSV_full_rowOf [of ?e "Some (formatReportsForCSV ?e (Some [[(''id'', JNum 1)]]))"
        "Some REPORTS_CSV_HEADERS"]
      formatReportsForCSV_full_rowOf [of ?e "Some [[(''id'', JNum 1)]]"]
    by (simp add: rowOf_def)
  have t4: "exportAsCSV_try_full ?e (Some [NullRow]) ''export'' None [] =
      Inl (TypeError ''Cannot convert undefined or null to object'')"
    by (simp add: exportAsCSV_try_full_def convertToCSV_full_def)
  from export_failures_become_messages
    [of ?e "?st [NullRow]" "Some [NullRow]" "''export''" None "[]"
        "TypeError ''Cannot convert undefined or null to object''"
        "[NullRow]" "TypeError (cannotRead ''null'' ''id'')"] f1 t4
  have a: "handleExportCSV_full ?e (?st [NullRow]) =
      Inr ((?st [NullRow])\<lparr>exportLoading := False,
             exportMessage := ''Export failed: '' @ message (TypeError (cannotRead ''null'' ''id'')),
             clearTimers := clearTimers (?st [NullRow]) @ [5000]\<rparr>)"
    and d: "exportAsCSV_full ?e (Some [NullRow]) ''export'' None [] =
      Inl (Error (''CSV export failed: '' @ message (TypeError ''Cannot convert undefined or null to object'')))"
    by simp_all
  from export_failures_become_messages
    [of ?e "?st [?bad]" _ _ _ _ _ "[?bad]" _ fb "RangeError ''Invalid time value''"] f2 c2
  have b: "handleExportCSV_full ?e (?st [?bad]) =
      Inr ((?st [?bad])\<lparr>exportLoading := False,
             exportMessage := ''Export failed: CSV export failed: '' @ message (RangeError ''Invalid time value''),
             clearTimers := clearTimers (?st [?bad]) @ [5000]\<rparr>)"
    by simp
  from export_failures_become_messages
    [of ?e "?st [?good]" _ _ _ _ _ "[?good]" _ fg _ csv] f3 c3
  have c: "handleExportCSV_full ?e (?st [?good]) =
      Inr ((?st [?good])\<lparr>exportLoading := False,
             exportMessage := ''Export failed: CSV export failed: Failed to download file'',
             clearTimers := clearTimers (?st [?good]) @ [5000]\<rparr>)"
    by simp
  from a b c d show ?thesis by (simp add: cannotRead_def)
qed

section \<open>The debounce hook over time\<close>

lemma run_Nil: "run [] s = s" by (simp add: run_def)
lemma run_Cons: "run (ev # evs) s = run evs (step ev s)" by (simp add: run_def)
lemma run_append: "run (xs @ ys) s = run ys (run xs s)" by (simp add: run_def)

lemma timeoutDelay_le: "timeoutDelay d \<le> d"
  by (simp add: timeoutDelay_def Let_def)

lemma timeoutDelay_small: "d \<le> 2147483647 \<Longrightarrow> timeoutDelay d = d"
  by (simp add: timeoutDelay_def Let_def)

lemma latest_step:
  "latestValue (step ev s) = lastInput (latestValue s) [ev] \<and>
   latestDelay (step ev s) = lastDelay (latestDelay s) [ev]"
  by (cases ev) (auto simp: render_def elapse_def split: option.splits)

lemma lastInput_Cons: "lastInput v (ev # evs) = lastInput (lastInput v [ev]) evs"
  by (cases ev) simp_all

lemma lastDelay_Cons: "lastDelay d (ev # evs) = lastDelay (lastDelay d [ev]) evs"
  by (cases ev) simp_all

lemma latest_run:
  "latestValue (run evs s) = lastInput (latestValue s) evs \<and>
   latestDelay (run evs s) = lastDelay (latestDelay s) evs"
proof (induction evs arbitrary: s)
  case Nil
  then show ?case by (simp add: run_Nil)
next
  case (Cons ev evs)
  from Cons [of "step ev s"] latest_step [of ev s] show ?case
    by (simp add: run_Cons lastInput_Cons [of _ ev evs] lastDelay_Cons [of _ ev evs])
qed

lemma latest_reachable:
  "latestValue (run hist (mount v d)) = lastInput v hist \<and>
   latestDelay (run hist (mount v d)) = lastDelay d hist"
  using latest_run [of hist "mount v d"] by (simp add: mount_def)

lemma hookInv_mount: "hookInv (mount v d)"
  by (simp add: hookInv_def mount_def)

lemma hookInv_step: "hookInv s \<Longrightarrow> hookInv (step ev s)"
  by (cases ev) (auto simp: hookInv_def render_def elapse_def split: option.splits)

lemma hookInv_run: "hookInv s \<Longrightarrow> hookInv (run evs s)"
  by (induction evs arbitrary: s) (simp_all add: run_Nil run_Cons hookInv_step)

lemma hookInv_reachable: "hookInv (run hist (mount v d))"
  by (rule hookInv_run) (rule hookInv_mount)

lemma quiet_step:
  assumes "unchanged (latestValue s) (latestDelay s) ev"
  shows "latestValue (step ev s) = latestValue s \<and> latestDelay (step ev s) = latestDelay s \<and>
         (\<forall>r' v'. timer (step ev s) = Some (r', v') \<longrightarrow>
            timer s = Some (r' + elapsed [ev], v') \<and> (isElapse ev \<longrightarrow> 0 < r'))"
  using assms by (cases ev) (auto simp: render_def elapse_def split: option.splits)

lemma elapsed_no_tick: "\<not> list_ex isElapse evs \<Longrightarrow> elapsed evs = 0"
  by (induction evs rule: elapsed.induct) simp_all

lemma elapsed_Cons: "elapsed (ev # evs) = elapsed [ev] + elapsed evs"
  by (cases ev) simp_all

lemma quiet_run:
  assumes "list_all (unchanged (latestValue s) (latestDelay s)) evs"
  shows "latestValue (run evs s) = latestValue s \<and> latestDelay (run evs s) = latestDelay s \<and>
         (\<forall>r' v'. timer (run evs s) = Some (r', v') \<longrightarrow>
            timer s = Some (r' + elapsed evs, v') \<and> (list_ex isElapse evs \<longrightarrow> 0 < r'))"
  using assms
proof (induction evs arbitrary: s)
  case Nil
  then show ?case by (simp add: run_Nil)
next
  case (Cons ev evs)
  from Cons.prems have q: "unchanged (latestValue s) (latestDelay s) ev" by simp
  note st = quiet_step [OF q]
  from Cons.prems st have "list_all (unchanged (latestValue (step ev s)) (latestDelay (step ev s))) evs"
    by simp
  note ih = Cons.IH [OF this]
  show ?case
  proof (intro conjI allI impI)
    show "latestValue (run (ev # evs) s) = latestValue s" using ih st by (simp add: run_Cons)
    show "latestDelay (run (ev # evs) s) = latestDelay s" using ih st by (simp add: run_Cons)
  next
    fix r' v' assume t: "timer (run (ev # evs) s) = Some (r', v')"
    then have "timer (step ev s) = Some (r' + elapsed evs, v')" using ih by (simp add: run_Cons)
    then have "timer s = Some (r' + elapsed evs + elapsed [ev], v')" using st by blast
    then show "timer s = Some (r' + elapsed (ev # evs), v')"
      by (simp add: elapsed_Cons [of ev evs] add.commute add.left_commute)
  next
    fix r' v' assume t: "timer (run (ev # evs) s) = Some (r', v')" and e: "list_ex isElapse (ev # evs)"
    from t have t1: "timer (step ev s) = Some (r' + elapsed evs, v')" using ih by (simp add: run_Cons)
    show "0 < r'"
    proof (cases "list_ex isElapse evs")
      case True
      with ih t show ?thesis by (simp add: run_Cons)
    next
      case False
      with e have tick: "isElapse ev" by simp
      from False have "elapsed evs = 0" by (rule elapsed_no_tick)
      with t1 have "timer (step ev s) = Some (r', v')" by simp
      with st tick show ?thesis by blast
    qed
  qed
qed

lemma quiescence:
  assumes inv: "hookInv s"
    and quiet: "list_all (unchanged (latestValue s) (latestDelay s)) evs"
    and tick: "list_ex isElapse evs"
    and long: "latestDelay s \<le> elapsed evs"
  shows "debouncedValue (run evs s) = latestValue s \<and> timer (run evs s) = None"
proof -
  note q = quiet_run [OF quiet]
  have none: "timer (run evs s) = None"
  proof (cases "timer (run evs s)")
    case None
    then show ?thesis .
  next
    case (Some p)
    obtain r' v' where p: "p = (r', v')" by (cases p)
    from Some p q tick have t: "timer s = Some (r' + elapsed evs, v')" and pos: "0 < r'" by blast+
    from inv t have "r' + elapsed evs \<le> timeoutDelay (latestDelay s)" by (simp add: hookInv_def)
    with long pos timeoutDelay_le [of "latestDelay s"] show ?thesis by simp
  qed
  from inv have "hookInv (run evs s)" by (rule hookInv_run)
  with none have "debouncedValue (run evs s) = latestValue (run evs s)" by (simp add: hookInv_def)
  with q none show ?thesis by simp
qed

lemma rapid_run:
  assumes "timer s = Some (r, v)" and "latestDelay s = d" and "r = d - t" and "t \<le> d"
    and "d \<le> 2147483647" and "withinWindow d (latestValue s) t evs"
  shows "debouncedValue (run (take k evs) s) = debouncedValue s"
  using assms
proof (induction evs arbitrary: s r v t k)
  case Nil
  then show ?case by (simp add: run_Nil)
next
  case (Cons ev evs)
  show ?case
  proof (cases k)
    case 0
    then show ?thesis by (simp add: run_Nil)
  next
    case (Suc j)
    show ?thesis
    proof (cases ev)
      case (Render v' d')
      show ?thesis
      proof (cases "v' = latestValue s")
        case True
        with Render Cons.prems have c: "d' = d" "withinWindow d (latestValue s) t evs" by simp_all
        from True c Render Cons.prems have same: "step ev s = s" by (simp add: render_def)
        from Cons.IH [of s r v t j] Cons.prems c
        have "debouncedValue (run (take j evs) s) = debouncedValue s" by simp
        with same Suc show ?thesis by (simp add: run_Cons)
      next
        case False
        with Render Cons.prems have c: "d' = d" "v' \<noteq> latestValue s" "withinWindow d v' 0 evs"
          by simp_all
        let ?s = "step ev s"
        from c Render Cons.prems have s': "timer ?s = Some (d, v')" "latestDelay ?s = d"
          "latestValue ?s = v'" "debouncedValue ?s = debouncedValue s"
          by (simp_all add: render_def timeoutDelay_small)
        from Cons.IH [of ?s d v' 0 j] s' c Cons.prems
        have "debouncedValue (run (take j evs) ?s) = debouncedValue ?s" by simp
        with s' Suc show ?thesis by (simp add: run_Cons)
      qed
    next
      case (Elapse n)
      with Cons.prems have c: "t + n < d" "withinWindow d (latestValue s) (t + n) evs" by simp_all
      let ?s = "step ev s"
      from c Elapse Cons.prems have s': "timer ?s = Some (d - (t + n), v)" "latestDelay ?s = d"
        "latestValue ?s = latestValue s" "debouncedValue ?s = debouncedValue s"
        by (auto simp: elapse_def)
      from Cons.IH [of ?s "d - (t + n)" v "t + n" j] s' c Cons.prems
      have "debouncedValue (run (take j evs) ?s) = debouncedValue ?s" by simp
      with s' Suc show ?thesis by (simp add: run_Cons)
    qed
  qed
qed

lemma rapid_changes:
  assumes "v \<noteq> latestValue s \<or> d \<noteq> latestDelay s" and "d \<le> 2147483647"
    and "withinWindow d v 0 evs"
  shows "debouncedValue (run (take k (Render v d # evs)) s) = debouncedValue s"
proof (cases k)
  case 0
  then show ?thesis by (simp add: run_Nil)
next
  case (Suc j)
  let ?s = "render v d s"
  from assms(1) have s': "timer ?s = Some (d, v)" "latestDelay ?s = d" "latestValue ?s = v"
    "debouncedValue ?s = debouncedValue s"
    by (auto simp: render_def timeoutDelay_small [OF assms(2)])
  from rapid_run [of ?s d v d 0 evs j] s' assms(2,3)
  have "debouncedValue (run (take j evs) ?s) = debouncedValue s" by simp
  with Suc show ?thesis by (simp add: run_Cons)
qed

lemma output_changes_to_input:
  assumes "hookInv s" and "debouncedValue (step ev s) \<noteq> debouncedValue s"
  shows "isElapse ev \<and> debouncedValue (step ev s) = latestValue s \<and> timer (step ev s) = None"
  using assms by (cases ev) (auto simp: hookInv_def render_def elapse_def split: option.splits if_splits)

text \<open>
  C2 as stated does not hold for every delay: with a delay of 3000000000 ms, which
  \<open>setTimeout\<close> does not keep, a change of the input from the empty string to \<open>a\<close> is
  copied to the output after 50 ms, well within the window.
\<close>

theorem useDebounce_large_delay_counterexample:
  "withinWindow 3000000000 ''a'' 0 [Elapse 50] \<and> ''a'' \<noteq> lastInput [] [] \<and>
   debouncedValue (run [] (mount [] 3000000000)) = [] \<and>
   debouncedValue (run (take 2 (Render ''a'' 3000000000 # [Elapse 50])) (mount [] 3000000000)) = ''a''"
  by (simp add: run_def mount_def render_def elapse_def timeoutDelay_def)

text \<open>
  C2, amended. The hook is first rendered with \<open>v0\<close> and \<open>d0\<close> and then goes through any
  renders and passages of time \<open>hist\<close>. (1) Once the input has stayed as it was last given
  while at least the delay last given went by (re-renders with the same arguments
  allowed, at least one passage of time), the debounced output is the last input given
  and no timer is pending. (2) For a delay \<open>d\<close> of at most 2147483647 ms: while the input
  keeps changing at delay \<open>d\<close>, never left alone for \<open>d\<close> milliseconds after a change,
  the output after every prefix of those events is what it was before the first change.
  (3) A pending timer always carries the last input given, so an earlier scheduled
  update is never applied, and the output only ever changes to the last input given, by
  a timer firing.
\<close>

theorem useDebounce_settles_and_holds:
  "(list_all (unchanged (lastInput v0 hist) (lastDelay d0 hist)) quiet \<and>
      list_ex isElapse quiet \<and> lastDelay d0 hist \<le> elapsed quiet \<longrightarrow>
      debouncedValue (run (hist @ quiet) (mount v0 d0)) = lastInput v0 hist \<and>
      lastInput v0 (hist @ quiet) = lastInput v0 hist \<and>
      timer (run (hist @ quiet) (mount v0 d0)) = None) \<and>
   (d \<le> 2147483647 \<and> v \<noteq> lastInput v0 hist \<and> withinWindow d v 0 burst \<longrightarrow>
      (\<forall>k. debouncedValue (run (hist @ take k (Render v d # burst)) (mount v0 d0)) =
           debouncedValue (run hist (mount v0 d0)))) \<and>
   (\<forall>r w. timer (run hist (mount v0 d0)) = Some (r, w) \<longrightarrow>
      w = lastInput v0 hist \<and> r \<le> lastDelay d0 hist) \<and>
   (debouncedValue (run (hist @ [ev]) (mount v0 d0)) \<noteq> debouncedValue (run hist (mount v0 d0)) \<longrightarrow>
      isElapse ev \<and> debouncedValue (run (hist @ [ev]) (mount v0 d0)) = lastInput v0 hist)"
proof (intro conjI impI allI)
  let ?s = "run hist (mount v0 d0)"
  note latest = latest_reachable [of hist v0 d0]
  assume h: "list_all (unchanged (lastInput v0 hist) (lastDelay d0 hist)) quiet \<and>
      list_ex isElapse quiet \<and> lastDelay d0 hist \<le> elapsed quiet"
  have inv: "hookInv ?s" by (rule hookInv_reachable)
  from h latest have q: "list_all (unchanged (latestValue ?s) (latestDelay ?s)) quiet"
    and tick: "list_ex isElapse quiet" and long: "latestDelay ?s \<le> elapsed quiet"
    by simp_all
  from quiescence [OF inv q tick long] latest
  show "debouncedValue (run (hist @ quiet) (mount v0 d0)) = lastInput v0 hist"
    and "timer (run (hist @ quiet) (mount v0 d0)) = None"
    by (simp_all add: run_append)
  from quiet_run [OF q] latest latest_reachable [of "hist @ quiet" v0 d0]
  show "lastInput v0 (hist @ quiet) = lastInput v0 hist"
    by (simp add: run_append)
next
  fix k assume h: "d \<le> 2147483647 \<and> v \<noteq> lastInput v0 hist \<and> withinWindow d v 0 burst"
  with latest_reachable [of hist v0 d0] have "v \<noteq> latestValue (run hist (mount v0 d0))" by simp
  with h rapid_changes [of v "run hist (mount v0 d0)" d burst k]
  show "debouncedValue (run (hist @ take k (Render v d # burst)) (mount v0 d0)) =
           debouncedValue (run hist (mount v0 d0))"
    by (simp add: run_append)
next
  fix r w assume t: "timer (run hist (mount v0 d0)) = Some (r, w)"
  have inv: "hookInv (run hist (mount v0 d0))" by (rule hookInv_reachable)
  with t latest_reachable [of hist v0 d0] show "w = lastInput v0 hist"
    by (simp add: hookInv_def)
  from inv t latest_reachable [of hist v0 d0] timeoutDelay_le [of "lastDelay d0 hist"]
  show "r \<le> lastDelay d0 hist" by (simp add: hookInv_def)
next
  assume c: "debouncedValue (run (hist @ [ev]) (mount v0 d0)) \<noteq> debouncedValue (run hist (mount v0 d0))"
  have inv: "hookInv (run hist (mount v0 d0))" by (rule hookInv_reachable)
  from c have c': "debouncedValue (step ev (run hist (mount v0 d0))) \<noteq> debouncedValue (run hist (mount v0 d0))"
    by (simp add: run_append run_Cons run_Nil)
  from output_changes_to_input [OF inv c'] latest_reachable [of hist v0 d0]
  show "isElapse ev" and "debouncedValue (run (hist @ [ev]) (mount v0 d0)) = lastInput v0 hist"
    by (simp_all add: run_append run_Cons run_Nil)
qed

theorem useDebounce_settles_and_holds_witness:
  "debouncedValue (run ([Render ''a'' 300, Elapse 100, Render ''ab'' 300] @
      [Elapse 200, Render ''ab'' 300, Elapse 100]) (mount [] 300)) = ''ab'' \<and>
   debouncedValue (run ([Render ''a'' 300, Elapse 100, Render ''ab'' 300] @
      [Elapse 100, Render ''ab'' 300]) (mount [] 300)) = [] \<and>
   debouncedValue (run ([] @ take 6 [Render ''a'' 300, Elapse 100, Render ''ab'' 300, Elapse 299,
      Render ''abc'' 300, Elapse 299]) (mount [] 300)) = [] \<and>
   timer (run [Render ''a'' 300, Elapse 100, Render ''ab'' 300] (mount [] 300)) = Some (300, ''ab'')"
proof -
  let ?hist = "[Render ''a'' 300, Elapse 100, Render ''ab'' 300]"
  let ?quiet = "[Elapse 200, Render ''ab'' 300, Elapse 100]"
  let ?burst = "[Elapse 100, Render ''ab'' 300, Elapse 299, Render ''abc'' 300, Elapse 299]"
  have td: "timeoutDelay 300 = 300" by (simp add: timeoutDelay_def)
  have s: "run ?hist (mount [] 300) =
      \<lparr>latestValue = ''ab'', latestDelay = 300, debouncedValue = [], timer = Some (300, ''ab'')\<rparr>"
    by (simp add: run_def mount_def render_def elapse_def td)
  have q: "list_all (unchanged (lastInput [] ?hist) (lastDelay 300 ?hist)) ?quiet \<and>
      list_ex isElapse ?quiet \<and> lastDelay 300 ?hist \<le> elapsed ?quiet"
    by simp
  have b: "(300::nat) \<le> 2147483647 \<and> ''a'' \<noteq> lastInput [] [] \<and> withinWindow 300 ''a'' 0 ?burst"
    by simp
  from useDebounce_settles_and_holds [of "[]" ?hist 300 ?quiet] q
  have a1: "debouncedValue (run (?hist @ ?quiet) (mount [] 300)) = lastInput [] ?hist"
    by blast
  from useDebounce_settles_and_holds [of "[]" "[]" 300 "[]" 300 "''a''" ?burst] b
  have a2: "debouncedValue (run ([] @ take 6 (Render ''a'' 300 # ?burst)) (mount [] 300)) =
      debouncedValue (run [] (mount [] 300))"
    by blast
  have a3: "debouncedValue (run (?hist @ [Elapse 100, Render ''ab'' 300]) (mount [] 300)) = []"
    by (simp add: run_def mount_def render_def elapse_def td)
  from a1 a2 a3 s show ?thesis by (simp add: mount_def run_def)
qed

section \<open>Objects and the filter form\<close>

lemma keysOf_Nil: "keysOf [] = []" by (simp add: keysOf_def)
lemma keysOf_Cons: "keysOf ((k, v) # ob) = k # keysOf ob" by (simp add: keysOf_def)
lemma getProp_Nil: "getProp [] k = inherited k" by (simp add: getProp_def)
lemma getProp_Cons: "getProp ((k', v) # ob) k = (if k = k' then v else getProp ob k)"
  by (simp add: getProp_def)

lemma getProp_setProp: "getProp (setProp ob k v) k' = (if k' = k then v else getProp ob k')"
  by (induction ob k v rule: setProp.induct) (auto simp: getProp_Nil getProp_Cons)

lemma keys_setProp: "set (keysOf (setProp ob k v)) = insert k (set (keysOf ob))"
  by (induction ob k v rule: setProp.induct) (auto simp: keysOf_Nil keysOf_Cons)

lemma spread_Nil: "spread tgt [] = tgt" by (simp add: spread_def)
lemma spread_Cons: "spread tgt ((k, v) # src) = spread (setProp tgt k v) src"
  by (simp add: spread_def)

lemma getProp_spread:
  "distinct (keysOf src) \<Longrightarrow>
     getProp (spread tgt src) k = (if k \<in> set (keysOf src) then getProp src k else getProp tgt k)"
proof (induction src arbitrary: tgt)
  case Nil
  then show ?case by (simp add: keysOf_Nil spread_Nil)
next
  case (Cons p src)
  obtain a b where p: "p = (a, b)" by (cases p)
  from Cons.prems p have d: "distinct (keysOf src)" and na: "a \<notin> set (keysOf src)"
    by (simp_all add: keysOf_Cons)
  from Cons.IH [OF d, of "setProp tgt a b"] na show ?case
    unfolding p by (auto simp: spread_Cons getProp_setProp keysOf_Cons getProp_Cons)
qed

lemma keys_spread: "set (keysOf (spread tgt src)) = set (keysOf tgt) \<union> set (keysOf src)"
proof (induction src arbitrary: tgt)
  case Nil
  then show ?case by (simp add: keysOf_Nil spread_Nil)
next
  case (Cons p src)
  obtain a b where p: "p = (a, b)" by (cases p)
  from Cons.IH [of "setProp tgt a b"] show ?case
    unfolding p by (auto simp: spread_Cons keys_setProp keysOf_Cons)
qed

lemma inherited_field: "k \<in> set filterFields \<Longrightarrow> inherited k = JUndefined"
  by (auto simp: filterFields_def inherited_def prototypeMethods_def)

lemma stringValued_getProp:
  "stringValued ini \<Longrightarrow> k \<in> set filterFields \<Longrightarrow>
     getProp ini k = JUndefined \<or> isStr (getProp ini k)"
proof -
  assume s: "stringValued ini" and f: "k \<in> set filterFields"
  show ?thesis
  proof (cases "map_of ini k")
    case None
    with f show ?thesis by (simp add: getProp_def inherited_field)
  next
    case (Some v)
    then have "(k, v) \<in> set ini" by (rule map_of_SomeD)
    with s have "isStr v" by (auto simp: stringValued_def list_all_iff)
    with Some show ?thesis by (simp add: getProp_def)
  qed
qed

lemma or_is_coalesce:
  "v = JUndefined \<or> isStr v \<Longrightarrow> jsOr v (JStr []) = jsCoalesce v (JStr [])"
  by (cases v) (auto simp: jsOr_def jsCoalesce_def nullish_def)

lemma baseline_same:
  "stringValued ini \<Longrightarrow> k \<in> set filterFields \<Longrightarrow>
     jsOr (getProp ini k) (JStr []) = jsCoalesce (getProp ini k) (JStr [])"
  by (rule or_is_coalesce) (rule stringValued_getProp)

lemma autoSubmit_iff:
  "(autoSubmit ini fs deb \<noteq> None) =
     list_ex (\<lambda>k. getProp (setProp fs ''search'' deb) k \<noteq> jsOr (getProp ini k) (JStr []))
       (keysOf (setProp fs ''search'' deb))"
  by (simp add: autoSubmit_def Let_def)

lemma autoSubmit_Some:
  "autoSubmit ini fs deb = Some cur \<Longrightarrow> cur = setProp fs ''search'' deb"
  by (simp add: autoSubmit_def Let_def split: if_splits)

lemma search_field: "''search'' \<in> set filterFields"
  by (simp add: filterFields_def)

lemma autoSubmit_changed_field:
  assumes sv: "stringValued ini" and keys: "set (keysOf fs) \<subseteq> set filterFields"
    and sub: "autoSubmit ini fs deb = Some cur"
  shows "list_ex (\<lambda>k. getProp cur k \<noteq> jsCoalesce (getProp ini k) (JStr [])) filterFields"
proof -
  from sub have cur: "cur = setProp fs ''search'' deb" by (rule autoSubmit_Some)
  from sub have "autoSubmit ini fs deb \<noteq> None" by simp
  then obtain k where k: "k \<in> set (keysOf cur)"
    and ne: "getProp cur k \<noteq> jsOr (getProp ini k) (JStr [])"
    unfolding autoSubmit_iff cur list_ex_iff by blast
  from k keys have kf: "k \<in> set filterFields"
    unfolding cur keys_setProp using search_field by auto
  from ne have "getProp cur k \<noteq> jsCoalesce (getProp ini k) (JStr [])"
    by (simp add: baseline_same [OF sv kf])
  with kf show ?thesis unfolding list_ex_iff by blast
qed

lemma getProp_defaults:
  "getProp
       [(''status'', jsOr (getProp ini ''status'') (JStr [])),
        (''department'', jsOr (getProp ini ''department'') (JStr [])),
        (''priority'', jsOr (getProp ini ''priority'') (JStr [])),
        (''dateFrom'', jsOr (getProp ini ''dateFrom'') (JStr [])),
        (''dateTo'', jsOr (getProp ini ''dateTo'') (JStr [])),
        (''search'', jsOr (getProp ini ''search'') (JStr []))] k =
     (if k \<in> set filterFields then jsOr (getProp ini k) (JStr []) else inherited k)"
  by (auto simp: getProp_Cons getProp_Nil filterFields_def)

lemma keys_initFilters: "set (keysOf (initFilters ini)) = set filterFields \<union> set (keysOf ini)"
  by (simp add: initFilters_def keys_spread) (auto simp: keysOf_def filterFields_def)

lemma jsOr_str: "isStr v \<Longrightarrow> jsOr v (JStr []) = v"
  by (cases v) (auto simp: jsOr_def)

lemma getProp_initFilters:
  assumes sv: "stringValued ini" and k: "k \<in> set (keysOf (initFilters ini))"
  shows "getProp (initFilters ini) k = jsOr (getProp ini k) (JStr [])"
proof (cases "k \<in> set (keysOf ini)")
  case True
  then have "map_of ini k \<noteq> None" by (simp add: keysOf_def map_of_eq_None_iff)
  then obtain v where v: "map_of ini k = Some v" by auto
  then have "(k, v) \<in> set ini" by (rule map_of_SomeD)
  with sv have "isStr v" by (auto simp: stringValued_def list_all_iff)
  with v have "jsOr (getProp ini k) (JStr []) = getProp ini k" by (simp add: getProp_def jsOr_str)
  moreover from sv True have "getProp (initFilters ini) k = getProp ini k"
    by (simp add: initFilters_def getProp_spread stringValued_def)
  ultimately show ?thesis by simp
next
  case False
  with k have "k \<in> set filterFields" by (simp add: keys_initFilters)
  moreover from sv False have "getProp (initFilters ini) k =
    getProp [(''status'', jsOr (getProp ini ''status'') (JStr [])),
        (''department'', jsOr (getProp ini ''department'') (JStr [])),
        (''priority'', jsOr (getProp ini ''priority'') (JStr [])),
        (''dateFrom'', jsOr (getProp ini ''dateFrom'') (JStr [])),
        (''dateTo'', jsOr (getProp ini ''dateTo'') (JStr [])),
        (''search'', jsOr (getProp ini ''search'') (JStr []))] k"
    by (simp add: initFilters_def getProp_spread stringValued_def)
  ultimately show ?thesis by (simp only: getProp_defaults if_True)
qed

lemma autoSubmit_mount:
  assumes sv: "stringValued ini"
  shows "autoSubmit ini (initFilters ini) (getProp (initFilters ini) ''search'') = None"
proof -
  let ?F = "initFilters ini"
  let ?cur = "setProp ?F ''search'' (getProp ?F ''search'')"
  have same: "getProp ?cur k = getProp ?F k" for k by (simp add: getProp_setProp)
  have "''search'' \<in> set (keysOf ?F)" by (simp add: keys_initFilters search_field)
  then have keys: "set (keysOf ?cur) = set (keysOf ?F)" by (auto simp: keys_setProp)
  have "\<not> list_ex (\<lambda>k. getProp ?cur k \<noteq> jsOr (getProp ini k) (JStr [])) (keysOf ?cur)"
    unfolding list_ex_iff keys same using getProp_initFilters [OF sv] by blast
  then show ?thesis using autoSubmit_iff [of ini ?F "getProp ?F ''search''"] by simp
qed

text \<open>
  C4. The filter data are typed as the data model has them: every value of
  \<open>initialFilters\<close> is a string (a partial filter state), and the filter state holds no
  key besides the six fields. Then the auto-submit effect calls \<open>onSubmit\<close> only when at
  least one of the six fields of the combined object (the filter state with \<open>search\<close>
  replaced by the debounced search) differs from \<open>initialFilters[field] ?? ''\<close>, and
  what it submits is that combined object; when every field equals that baseline there
  is no emission; and there is none at the first render, where the filter state is the
  initial one and the debounced search is its search field.
\<close>

theorem autoSubmit_only_on_change:
  "(stringValued ini \<and> set (keysOf fs) \<subseteq> set filterFields \<and> autoSubmit ini fs deb = Some cur \<longrightarrow>
      cur = setProp fs ''search'' deb \<and>
      list_ex (\<lambda>k. getProp cur k \<noteq> jsCoalesce (getProp ini k) (JStr [])) filterFields) \<and>
   (stringValued ini \<and> set (keysOf fs) \<subseteq> set filterFields \<and>
      list_all (\<lambda>k. getProp (setProp fs ''search'' deb) k = jsCoalesce (getProp ini k) (JStr []))
        filterFields \<longrightarrow>
      autoSubmit ini fs deb = None) \<and>
   (stringValued ini \<longrightarrow>
      autoSubmit ini (initFilters ini) (getProp (initFilters ini) ''search'') = None)"
proof (intro conjI impI)
  assume h: "stringValued ini \<and> set (keysOf fs) \<subseteq> set filterFields \<and> autoSubmit ini fs deb = Some cur"
  then show "cur = setProp fs ''search'' deb" using autoSubmit_Some by blast
  from h show "list_ex (\<lambda>k. getProp cur k \<noteq> jsCoalesce (getProp ini k) (JStr [])) filterFields"
    using autoSubmit_changed_field [of ini fs deb cur] by blast
next
  assume h: "stringValued ini \<and> set (keysOf fs) \<subseteq> set filterFields \<and>
      list_all (\<lambda>k. getProp (setProp fs ''search'' deb) k = jsCoalesce (getProp ini k) (JStr []))
        filterFields"
  show "autoSubmit ini fs deb = None"
  proof (cases "autoSubmit ini fs deb")
    case None
    then show ?thesis .
  next
    case (Some cur)
    with h have "cur = setProp fs ''search'' deb"
      and "list_ex (\<lambda>k. getProp cur k \<noteq> jsCoalesce (getProp ini k) (JStr [])) filterFields"
      using autoSubmit_Some [of ini fs deb cur] autoSubmit_changed_field [of ini fs deb cur]
      by blast+
    with h show ?thesis by (auto simp: list_ex_iff list_all_iff)
  qed
next
  assume "stringValued ini"
  then show "autoSubmit ini (initFilters ini) (getProp (initFilters ini) ''search'') = None"
    by (rule autoSubmit_mount)
qed

theorem autoSubmit_only_on_change_witness:
  "stringValued [(''status'', JStr ''draft'')] \<and>
   autoSubmit [(''status'', JStr ''draft'')] (initFilters [(''status'', JStr ''draft'')]) (JStr []) = None \<and>
   autoSubmit [(''status'', JStr ''draft'')]
      (setProp (initFilters [(''status'', JStr ''draft'')]) ''status'' (JStr ''pending'')) (JStr []) =
     Some [(''status'', JStr ''pending''), (''department'', JStr []), (''priority'', JStr []),
           (''dateFrom'', JStr []), (''dateTo'', JStr []), (''search'', JStr [])] \<and>
   list_ex (\<lambda>k. getProp [(''status'', JStr ''pending''), (''department'', JStr []), (''priority'', JStr []),
           (''dateFrom'', JStr []), (''dateTo'', JStr []), (''search'', JStr [])] k
        \<noteq> jsCoalesce (getProp [(''status'', JStr ''draft'')] k) (JStr [])) filterFields"
proof -
  let ?ini = "[(''status'', JStr ''draft'')]"
  let ?cur = "[(''status'', JStr ''pending''), (''department'', JStr []), (''priority'', JStr []),
           (''dateFrom'', JStr []), (''dateTo'', JStr []), (''search'', JStr [])]"
  have sv: "stringValued ?ini" by (simp add: stringValued_def keysOf_def)
  have F: "initFilters ?ini =
      [(''status'', JStr ''draft''), (''department'', JStr []), (''priority'', JStr []),
       (''dateFrom'', JStr []), (''dateTo'', JStr []), (''search'', JStr [])]"
    by code_simp
  have s: "getProp (initFilters ?ini) ''search'' = JStr []" unfolding F by (simp add: getProp_def)
  have keys: "set (keysOf (setProp (initFilters ?ini) ''status'' (JStr ''pending''))) \<subseteq> set filterFields"
    unfolding F by (simp add: keysOf_def filterFields_def)
  have e: "autoSubmit ?ini (setProp (initFilters ?ini) ''status'' (JStr ''pending'')) (JStr []) = Some ?cur"
    by code_simp
  note inst = autoSubmit_only_on_change
    [of ?ini "setProp (initFilters ?ini) ''status'' (JStr ''pending'')" "JStr []" ?cur]
  from inst sv keys e
  have a: "list_ex (\<lambda>k. getProp ?cur k \<noteq> jsCoalesce (getProp ?ini k) (JStr [])) filterFields"
    by blast
  from inst sv have "autoSubmit ?ini (initFilters ?ini) (getProp (initFilters ?ini) ''search'') = None"
    by blast
  then have b: "autoSubmit ?ini (initFilters ?ini) (JStr []) = None" unfolding s .
  from sv a b e show ?thesis by blast
qed

text \<open>
  C5. From any state of the form, \<open>handleReset\<close> sets the filter state to the object whose
  six fields are the empty string and, in the same step, passes exactly that object to
  \<open>onSubmit\<close> after whatever was submitted before. The debounce hook of the search field
  is not consulted and not changed, and the object is submitted even though the change
  detection of the auto-submit effect, against an empty baseline, would not submit it.
\<close>

theorem handleReset_emits_empty_filters:
  "filters (handleReset st) =
     [(''status'', JStr []), (''department'', JStr []), (''priority'', JStr []),
      (''dateFrom'', JStr []), (''dateTo'', JStr []), (''search'', JStr [])] \<and>
   keysOf (filters (handleReset st)) = filterFields \<and>
   map (getProp (filters (handleReset st))) filterFields = replicate 6 (JStr []) \<and>
   submitted (handleReset st) =
     submitted st @
       [[(''status'', JStr []), (''department'', JStr []), (''priority'', JStr []),
         (''dateFrom'', JStr []), (''dateTo'', JStr []), (''search'', JStr [])]] \<and>
   searchHook (handleReset st) = searchHook st \<and>
   autoSubmit [] (filters (handleReset st)) (JStr []) = None"
  by (simp add: handleReset_def resetFilters_def keysOf_def filterFields_def getProp_def
      autoSubmit_def jsOr_def numeral_eq_Suc inherited_def prototypeMethods_def)

end
